theory Spec2Isabelle
  imports Complex_Main
begin

section \<open>Python string primitives used by the scraper\<close>

text \<open>
  A Python string is a sequence of Unicode code points, and is modelled as the list of
  them. \<open>py\<close> writes the string of a literal. Only the operations that
  \<^verbatim>\<open>news_scraper.py\<close> calls are modelled: \<^verbatim>\<open>str.strip()\<close>,
  \<^verbatim>\<open>sep.join(xs)\<close>, \<^verbatim>\<open>s.startswith(p)\<close>, \<^verbatim>\<open>sub in s\<close>,
  \<^verbatim>\<open>s.replace(c, new)\<close> for a one-character \<^verbatim>\<open>c\<close>, and whitespace splitting.
\<close>

type_synonym pystr = "nat list"

abbreviation py :: "string \<Rightarrow> pystr" where
  "py s \<equiv> map of_char s"

text \<open>
  The code points for which \<^verbatim>\<open>str.isspace()\<close> holds, which are the ones
  \<^verbatim>\<open>str.strip()\<close> removes and whitespace splitting splits at: the ASCII
  whitespace and separators, NEL, the no-break space and the Unicode spaces and line
  separators.
\<close>

definition py_isspace :: "nat \<Rightarrow> bool" where
  "py_isspace c = (c \<in> set [0x09, 0x0A, 0x0B, 0x0C, 0x0D, 0x1C, 0x1D, 0x1E, 0x1F, 0x20,
                              0x85, 0xA0, 0x1680, 0x2000, 0x2001, 0x2002, 0x2003, 0x2004,
                              0x2005, 0x2006, 0x2007, 0x2008, 0x2009, 0x200A, 0x2028, 0x2029,
                              0x202F, 0x205F, 0x3000])"

definition py_strip :: "pystr \<Rightarrow> pystr" where
  "py_strip s = rev (dropWhile py_isspace (rev (dropWhile py_isspace s)))"

fun py_join :: "pystr \<Rightarrow> pystr list \<Rightarrow> pystr" where
  "py_join sep [] = []"
| "py_join sep [x] = x"
| "py_join sep (x # y # ys) = x @ sep @ py_join sep (y # ys)"

definition startswith :: "pystr \<Rightarrow> pystr \<Rightarrow> bool" where
  "startswith s p = (take (length p) s = p)"

fun py_in :: "pystr \<Rightarrow> pystr \<Rightarrow> bool" where
  "py_in sub [] = (sub = [])"
| "py_in sub (c # cs) = (startswith (c # cs) sub \<or> py_in sub cs)"

definition py_replace :: "nat \<Rightarrow> pystr \<Rightarrow> pystr \<Rightarrow> pystr" where
  "py_replace c new s = concat (map (\<lambda>x. if x = c then new else [x]) s)"

fun split_from :: "pystr \<Rightarrow> pystr \<Rightarrow> pystr list" where
  "split_from cur [] = (if cur = [] then [] else [cur])"
| "split_from cur (c # cs) =
     (if py_isspace c then (if cur = [] then split_from [] cs else cur # split_from [] cs)
      else split_from (cur @ [c]) cs)"

definition py_split :: "pystr \<Rightarrow> pystr list" where
  "py_split s = split_from [] s"

section \<open>Parsed HTML\<close>

text \<open>
  The parse tree that BeautifulSoup hands to the scraper: a tag has a name, its
  attributes and its children; a leaf is a string. The soup object itself is the root
  tag. \<open>descendants\<close> lists the nodes below a tag in document order, which is the
  order \<^verbatim>\<open>find\<close> and \<^verbatim>\<open>find_all\<close> search in.
\<close>

datatype node = Tag pystr "(pystr \<times> pystr) list" "node list" | NavigableString pystr

datatype attr_filter = Equals pystr | Present

fun descendants :: "node \<Rightarrow> node list" where
  "descendants (Tag n a cs) = concat (map (\<lambda>c. c # descendants c) cs)"
| "descendants (NavigableString s) = []"

fun get_text :: "node \<Rightarrow> pystr" where
  "get_text (NavigableString s) = s"
| "get_text (Tag n a cs) = concat (map get_text cs)"

fun get_attr :: "node \<Rightarrow> pystr \<Rightarrow> pystr option" where
  "get_attr (Tag n a cs) k = map_of a k"
| "get_attr (NavigableString s) k = None"

text \<open>
  An attribute filter \<^verbatim>\<open>{'k': 'v'}\<close> asks for equality, except that
  \<^verbatim>\<open>class\<close> is multi-valued: one of its whitespace-separated values, or the
  values joined by single spaces, must equal \<^verbatim>\<open>v\<close>. \<^verbatim>\<open>href=True\<close> asks for
  the attribute to be present.
\<close>

definition value_matches :: "pystr \<Rightarrow> pystr \<Rightarrow> pystr \<Rightarrow> bool" where
  "value_matches k want have =
     (if k = (py ''class'') then want \<in> set (py_split have) \<or> want = py_join (py '' '') (py_split have)
      else want = have)"

fun filter_ok :: "(pystr \<times> pystr) list \<Rightarrow> pystr \<times> attr_filter \<Rightarrow> bool" where
  "filter_ok a (k, Present) = (map_of a k \<noteq> None)"
| "filter_ok a (k, Equals v) = (case map_of a k of None \<Rightarrow> False | Some w \<Rightarrow> value_matches k v w)"

fun matches :: "pystr \<Rightarrow> (pystr \<times> attr_filter) list \<Rightarrow> node \<Rightarrow> bool" where
  "matches name fs (Tag n a cs) = (n = name \<and> list_all (filter_ok a) fs)"
| "matches name fs (NavigableString s) = False"

definition find_all :: "node \<Rightarrow> pystr \<Rightarrow> (pystr \<times> attr_filter) list \<Rightarrow> node list" where
  "find_all nd name fs = filter (matches name fs) (descendants nd)"

definition find :: "node \<Rightarrow> pystr \<Rightarrow> (pystr \<times> attr_filter) list \<Rightarrow> node option" where
  "find nd name fs = (case find_all nd name fs of [] \<Rightarrow> None | t # _ \<Rightarrow> Some t)"

definition tag_text :: "node \<Rightarrow> pystr" where
  "tag_text t = py_strip (get_text t)"

section \<open>Extraction strategies\<close>

datatype variant = Generic | NYTimes | BBC

subsection \<open>Title\<close>

definition NewsScraper_extract_title :: "node \<Rightarrow> pystr" where
  "NewsScraper_extract_title soup =
     (case find soup (py ''h1'') [] of Some title_tag \<Rightarrow> tag_text title_tag
      | None \<Rightarrow> (py ''Unknown Title''))"

definition NYTimesScraper_extract_title :: "node \<Rightarrow> pystr" where
  "NYTimesScraper_extract_title soup =
     (let title_tag = (case find soup (py ''h1'') [(py ''data-testid'', Equals (py ''headline''))] of
                         None \<Rightarrow> find soup (py ''h1'') []
                       | Some t \<Rightarrow> Some t)
      in case title_tag of Some t \<Rightarrow> tag_text t | None \<Rightarrow> (py ''Unknown Title''))"

definition BBCScraper_extract_title :: "node \<Rightarrow> pystr" where
  "BBCScraper_extract_title soup =
     (case find soup (py ''h1'') [(py ''id'', Equals (py ''main-heading''))] of
        Some title_tag \<Rightarrow> tag_text title_tag
      | None \<Rightarrow> (py ''Unknown Title''))"

fun extract_title :: "variant \<Rightarrow> node \<Rightarrow> pystr" where
  "extract_title Generic = NewsScraper_extract_title"
| "extract_title NYTimes = NYTimesScraper_extract_title"
| "extract_title BBC = BBCScraper_extract_title"

subsection \<open>Content\<close>

definition paragraph_texts :: "node list \<Rightarrow> pystr" where
  "paragraph_texts paragraphs = py_join (py '' '') (map tag_text paragraphs)"

definition NewsScraper_extract_content :: "node \<Rightarrow> pystr" where
  "NewsScraper_extract_content soup = paragraph_texts (find_all soup (py ''p'') [])"

definition NYTimesScraper_extract_content :: "node \<Rightarrow> pystr" where
  "NYTimesScraper_extract_content soup =
     (let paragraphs =
        (case find soup (py ''section'') [(py ''name'', Equals (py ''articleBody''))] of
           Some article_section \<Rightarrow> find_all article_section (py ''p'') []
         | None \<Rightarrow> find_all soup (py ''p'') [(py ''class'', Equals (py ''css-axufdj''))])
      in paragraph_texts paragraphs)"

definition BBCScraper_extract_content :: "node \<Rightarrow> pystr" where
  "BBCScraper_extract_content soup =
     (case find soup (py ''article'') [] of
        Some article_body \<Rightarrow> paragraph_texts (find_all article_body (py ''p'') [])
      | None \<Rightarrow> [])"

fun extract_content :: "variant \<Rightarrow> node \<Rightarrow> pystr" where
  "extract_content Generic = NewsScraper_extract_content"
| "extract_content NYTimes = NYTimesScraper_extract_content"
| "extract_content BBC = BBCScraper_extract_content"

subsection \<open>Author, summary, categories\<close>

definition NewsScraper_extract_author :: "node \<Rightarrow> pystr option" where
  "NewsScraper_extract_author soup = None"

definition NYTimesScraper_extract_author :: "node \<Rightarrow> pystr option" where
  "NYTimesScraper_extract_author soup =
     (let author_tag = (case find soup (py ''span'') [(py ''itemprop'', Equals (py ''name''))] of
                          None \<Rightarrow> find soup (py ''span'') [(py ''class'', Equals (py ''byline-author''))]
                        | Some t \<Rightarrow> Some t)
      in map_option tag_text author_tag)"

definition BBCScraper_extract_author :: "node \<Rightarrow> pystr option" where
  "BBCScraper_extract_author soup =
     map_option tag_text
       (find soup (py ''div'') [(py ''class'', Equals (py ''ssrcss-68pt20-Text-TextContributorName''))])"

fun extract_author :: "variant \<Rightarrow> node \<Rightarrow> pystr option" where
  "extract_author Generic = NewsScraper_extract_author"
| "extract_author NYTimes = NYTimesScraper_extract_author"
| "extract_author BBC = BBCScraper_extract_author"

definition NewsScraper_extract_summary :: "node \<Rightarrow> pystr option" where
  "NewsScraper_extract_summary soup = None"

definition NYTimesScraper_extract_summary :: "node \<Rightarrow> pystr option" where
  "NYTimesScraper_extract_summary soup =
     (let summary_tag = (case find soup (py ''p'') [(py ''id'', Equals (py ''article-summary''))] of
                           None \<Rightarrow> find soup (py ''p'') [(py ''class'', Equals (py ''css-w6ymp8''))]
                         | Some t \<Rightarrow> Some t)
      in map_option tag_text summary_tag)"

text \<open>The BBC scraper does not override \<^verbatim>\<open>_extract_summary\<close> and
  \<^verbatim>\<open>_extract_categories\<close>: it inherits the base class's.\<close>

fun extract_summary :: "variant \<Rightarrow> node \<Rightarrow> pystr option" where
  "extract_summary Generic = NewsScraper_extract_summary"
| "extract_summary NYTimes = NYTimesScraper_extract_summary"
| "extract_summary BBC = NewsScraper_extract_summary"

definition NewsScraper_extract_categories :: "node \<Rightarrow> pystr list" where
  "NewsScraper_extract_categories soup = []"

definition truthy_content :: "node \<Rightarrow> pystr list" where
  "truthy_content t = (case get_attr t (py ''content'') of None \<Rightarrow> []
                       | Some v \<Rightarrow> if v = [] then [] else [v])"

definition NYTimesScraper_extract_categories :: "node \<Rightarrow> pystr list" where
  "NYTimesScraper_extract_categories soup =
     (case find soup (py ''meta'') [(py ''property'', Equals (py ''article:section''))] of
        None \<Rightarrow> [] | Some section_tag \<Rightarrow> truthy_content section_tag)
     @ concat (map truthy_content (find_all soup (py ''meta'') [(py ''property'', Equals (py ''article:tag''))]))"

fun extract_categories :: "variant \<Rightarrow> node \<Rightarrow> pystr list" where
  "extract_categories Generic = NewsScraper_extract_categories"
| "extract_categories NYTimes = NYTimesScraper_extract_categories"
| "extract_categories BBC = NewsScraper_extract_categories"

section \<open>Timestamps\<close>

text \<open>
  A \<^verbatim>\<open>datetime\<close> value: its calendar fields and, for an aware value, the offset of
  its time zone from UTC in microseconds (\<open>None\<close> for a naive value).
  \<open>isoformat\<close> is the standard library's: it writes
  \<^verbatim>\<open>YYYY-MM-DDTHH:MM:SS[.ffffff][+HH:MM[:SS[.ffffff]]]\<close>.
  What \<^verbatim>\<open>datetime.fromisoformat\<close> reads depends on the interpreter: Python 3.7 to
  3.10 read \<^verbatim>\<open>YYYY-MM-DD[*HH[:MM[:SS[.fff[fff]]]][+HH:MM[:SS[.ffffff]]]]\<close>, where
  \<^verbatim>\<open>*\<close> is any single character, and Python 3.11 reads more forms. The scraper
  therefore takes the parser from its environment (see \<open>env\<close> below).
  \<open>fromisoformat_310\<close> is the parser of Python 3.7 to 3.10, with \<open>None\<close> where the
  library raises \<^verbatim>\<open>ValueError\<close>, also for a field out of range; it serves as the
  parser of the examples and reads back what \<open>isoformat\<close> writes, as every version
  does.
\<close>

record datetime =
  year :: nat
  month :: nat
  day :: nat
  hour :: nat
  minute :: nat
  second :: nat
  microsecond :: nat
  utcoffset :: "int option"

definition is_leap :: "nat \<Rightarrow> bool" where
  "is_leap y = (y mod 4 = 0 \<and> (y mod 100 \<noteq> 0 \<or> y mod 400 = 0))"

definition days_in_month :: "nat \<Rightarrow> nat \<Rightarrow> nat" where
  "days_in_month y m =
     (if m = 2 then (if is_leap y then 29 else 28)
      else if m \<in> set [4, 6, 9, 11] then 30 else 31)"

definition valid_datetime :: "datetime \<Rightarrow> bool" where
  "valid_datetime d =
     (1 \<le> year d \<and> year d \<le> 9999 \<and> 1 \<le> month d \<and> month d \<le> 12 \<and>
      1 \<le> day d \<and> day d \<le> days_in_month (year d) (month d) \<and>
      hour d < 24 \<and> minute d < 60 \<and> second d < 60 \<and> microsecond d < 1000000 \<and>
      (case utcoffset d of None \<Rightarrow> True | Some off \<Rightarrow> \<bar>off\<bar> < 86400000000))"

definition digit_char :: "nat \<Rightarrow> nat" where
  "digit_char n = of_char (CHR ''0'') + n mod 10"

definition digit_val :: "nat \<Rightarrow> nat option" where
  "digit_val c =
     (if of_char (CHR ''0'') \<le> c \<and> c \<le> of_char (CHR ''9'') then Some (c - of_char (CHR ''0''))
      else None)"

fun dec :: "nat \<Rightarrow> pystr" where
  "dec n = (if n < 10 then [digit_char n] else dec (n div 10) @ [digit_char (n mod 10)])"

declare dec.simps [simp del]

definition zpad :: "nat \<Rightarrow> nat \<Rightarrow> pystr" where
  "zpad k n = replicate (k - length (dec n)) (of_char (CHR ''0'')) @ dec n"

fun read_nat_acc :: "nat \<Rightarrow> pystr \<Rightarrow> nat option" where
  "read_nat_acc acc [] = Some acc"
| "read_nat_acc acc (c # cs) =
     (case digit_val c of None \<Rightarrow> None | Some d \<Rightarrow> read_nat_acc (acc * 10 + d) cs)"

definition read_digits :: "nat \<Rightarrow> pystr \<Rightarrow> (nat \<times> pystr) option" where
  "read_digits k s =
     (if length s < k then None
      else map_option (\<lambda>n. (n, drop k s)) (read_nat_acc 0 (take k s)))"

definition format_offset :: "int option \<Rightarrow> pystr" where
  "format_offset off =
     (case off of None \<Rightarrow> []
      | Some t \<Rightarrow>
          (let a = nat \<bar>t\<bar>;
               hh = a div 3600000000;
               mm = (a mod 3600000000) div 60000000;
               ss = (a mod 60000000) div 1000000;
               us = a mod 1000000
           in (if t < 0 then (py ''-'') else (py ''+'')) @ zpad 2 hh @ (py '':'') @ zpad 2 mm @
              (if ss \<noteq> 0 \<or> us \<noteq> 0
               then (py '':'') @ zpad 2 ss @ (if us \<noteq> 0 then (py ''.'') @ zpad 6 us else [])
               else [])))"

definition isoformat :: "datetime \<Rightarrow> pystr" where
  "isoformat d =
     zpad 4 (year d) @ (py ''-'') @ zpad 2 (month d) @ (py ''-'') @ zpad 2 (day d) @ (py ''T'') @
     zpad 2 (hour d) @ (py '':'') @ zpad 2 (minute d) @ (py '':'') @ zpad 2 (second d) @
     (if microsecond d \<noteq> 0 then (py ''.'') @ zpad 6 (microsecond d) else []) @
     format_offset (utcoffset d)"

text \<open>The time part of \<open>isoformat\<close>, named for the proofs.\<close>

definition hms :: "nat \<Rightarrow> nat \<Rightarrow> nat \<Rightarrow> nat \<Rightarrow> pystr" where
  "hms h m s us = zpad 2 h @ (py '':'') @ zpad 2 m @ (py '':'') @ zpad 2 s @
     (if us \<noteq> 0 then (py ''.'') @ zpad 6 us else [])"

definition parse_hh_mm_ss_ff :: "pystr \<Rightarrow> (nat \<times> nat \<times> nat \<times> nat) option" where
  "parse_hh_mm_ss_ff tstr =
     (case read_digits 2 tstr of None \<Rightarrow> None
      | Some (h, r1) \<Rightarrow>
     (case r1 of [] \<Rightarrow> Some (h, 0, 0, 0)
      | c1 # r2 \<Rightarrow> if c1 \<noteq> (of_char (CHR '':'')) then None else
     (case read_digits 2 r2 of None \<Rightarrow> None
      | Some (m, r3) \<Rightarrow>
     (case r3 of [] \<Rightarrow> Some (h, m, 0, 0)
      | c2 # r4 \<Rightarrow> if c2 \<noteq> (of_char (CHR '':'')) then None else
     (case read_digits 2 r4 of None \<Rightarrow> None
      | Some (s, r5) \<Rightarrow>
     (case r5 of [] \<Rightarrow> Some (h, m, s, 0)
      | c3 # r6 \<Rightarrow> if c3 \<noteq> (of_char (CHR ''.'')) then None
          else if length r6 = 3 then map_option (\<lambda>f. (h, m, s, f * 1000)) (read_nat_acc 0 r6)
          else if length r6 = 6 then map_option (\<lambda>f. (h, m, s, f)) (read_nat_acc 0 r6)
          else None))))))"

definition is_sign :: "nat \<Rightarrow> bool" where
  "is_sign c = (c = (of_char (CHR ''+'')) \<or> c = (of_char (CHR ''-'')))"

definition parse_isoformat_time ::
  "pystr \<Rightarrow> (nat \<times> nat \<times> nat \<times> nat \<times> int option) option" where
  "parse_isoformat_time tstr =
     (let timestr = takeWhile (\<lambda>c. \<not> is_sign c) tstr;
          tzpart = dropWhile (\<lambda>c. \<not> is_sign c) tstr
      in case parse_hh_mm_ss_ff timestr of None \<Rightarrow> None
         | Some (h, m, s, us) \<Rightarrow>
        (case tzpart of [] \<Rightarrow> Some (h, m, s, us, None)
         | sg # tzstr \<Rightarrow>
             if length tzstr \<notin> set [5, 8, 15] then None
             else (case parse_hh_mm_ss_ff tzstr of None \<Rightarrow> None
                   | Some (th, tm, ts, tus) \<Rightarrow>
                       Some (h, m, s, us,
                             Some ((if sg = (of_char (CHR ''-'')) then - 1 else 1) *
                                   int (((th * 60 + tm) * 60 + ts) * 1000000 + tus))))))"

definition new_datetime ::
  "nat \<Rightarrow> nat \<Rightarrow> nat \<Rightarrow> nat \<times> nat \<times> nat \<times> nat \<times> int option \<Rightarrow> datetime option" where
  "new_datetime y mo d t =
     (case t of (h, mi, s, us, tz) \<Rightarrow>
        (let dt = \<lparr>year = y, month = mo, day = d, hour = h, minute = mi, second = s,
                        microsecond = us, utcoffset = tz\<rparr>
         in if valid_datetime dt then Some dt else None))"

definition fromisoformat_310 :: "pystr \<Rightarrow> datetime option" where
  "fromisoformat_310 date_string =
     (case read_digits 4 date_string of None \<Rightarrow> None
      | Some (y, r1) \<Rightarrow>
     (case r1 of [] \<Rightarrow> None
      | c1 # r2 \<Rightarrow> if c1 \<noteq> (of_char (CHR ''-'')) then None else
     (case read_digits 2 r2 of None \<Rightarrow> None
      | Some (mo, r3) \<Rightarrow>
     (case r3 of [] \<Rightarrow> None
      | c2 # r4 \<Rightarrow> if c2 \<noteq> (of_char (CHR ''-'')) then None else
     (case read_digits 2 r4 of None \<Rightarrow> None
      | Some (d, r5) \<Rightarrow>
     (case r5 of [] \<Rightarrow> new_datetime y mo d (0, 0, 0, 0, None)
      | sep # tstr \<Rightarrow>
          (case parse_isoformat_time tstr of None \<Rightarrow> None
           | Some t \<Rightarrow> new_datetime y mo d t)))))))"

subsection \<open>Date extraction\<close>

text \<open>
  A log record: one constructor for each \<^verbatim>\<open>logger.error\<close> call of the module,
  holding the values its message interpolates.
  \<^item> \<open>ArticleError url cause\<close>: \<^verbatim>\<open>"Error fetching article {url}: {str(e)}"\<close>
  \<^item> \<open>LatestError cause\<close>: \<^verbatim>\<open>"Error fetching latest articles: {str(e)}"\<close>
  \<^item> \<open>UrlsError cause\<close>: \<^verbatim>\<open>"Error getting article URLs: {str(e)}"\<close>
  \<^item> \<open>DateError text\<close>: \<^verbatim>\<open>"Error parsing date: {str(e)}"\<close>, where the
    exception names the text that did not parse.
\<close>

datatype log_record =
  ArticleError pystr pystr | LatestError pystr | UrlsError pystr | DateError pystr

type_synonym iso_parser = "pystr \<Rightarrow> datetime option"

definition NewsScraper_extract_date :: "node \<Rightarrow> datetime option \<times> log_record list" where
  "NewsScraper_extract_date soup = (None, [])"

definition parse_time_tag :: "iso_parser \<Rightarrow> node \<Rightarrow> datetime option \<times> log_record list" where
  "parse_time_tag parse soup =
     (case find soup (py ''time'') [] of None \<Rightarrow> (None, [])
      | Some date_tag \<Rightarrow>
          (case get_attr date_tag (py ''datetime'') of None \<Rightarrow> (None, [])
           | Some v \<Rightarrow>
               if v = [] then (None, [])
               else (let text = py_replace (of_char (CHR ''Z'')) (py ''+00:00'') v
                     in case parse text of
                          Some d \<Rightarrow> (Some d, [])
                        | None \<Rightarrow> (None, [DateError text]))))"

definition NYTimesScraper_extract_date ::
  "iso_parser \<Rightarrow> node \<Rightarrow> datetime option \<times> log_record list" where
  "NYTimesScraper_extract_date parse soup = parse_time_tag parse soup"

definition BBCScraper_extract_date ::
  "iso_parser \<Rightarrow> node \<Rightarrow> datetime option \<times> log_record list" where
  "BBCScraper_extract_date parse soup = parse_time_tag parse soup"

fun extract_date :: "iso_parser \<Rightarrow> variant \<Rightarrow> node \<Rightarrow> datetime option \<times> log_record list" where
  "extract_date parse Generic = NewsScraper_extract_date"
| "extract_date parse NYTimes = NYTimesScraper_extract_date parse"
| "extract_date parse BBC = BBCScraper_extract_date parse"

section \<open>Articles\<close>

record article =
  title :: pystr
  content :: pystr
  url :: pystr
  source :: pystr
  author :: "pystr option"
  date :: "datetime option"
  summary :: "pystr option"
  categories :: "pystr list"

text \<open>
  \<^verbatim>\<open>NewsArticle.__init__\<close>: the constructor stores its arguments, with
  \<^verbatim>\<open>categories or []\<close> for the categories.
\<close>

definition NewsArticle ::
  "pystr \<Rightarrow> pystr \<Rightarrow> pystr \<Rightarrow> pystr \<Rightarrow> pystr option \<Rightarrow> datetime option \<Rightarrow>
   pystr option \<Rightarrow> pystr list option \<Rightarrow> article" where
  "NewsArticle t c u s a d sm cats =
     \<lparr>title = t, content = c, url = u, source = s, author = a, date = d, summary = sm,
      categories = (case cats of None \<Rightarrow> [] | Some cs \<Rightarrow> cs)\<rparr>"

text \<open>
  The values of the dictionary that \<^verbatim>\<open>to_dict\<close> builds: \<^verbatim>\<open>None\<close>, a string or
  a list of strings. The dictionary is kept as the list of its items, in the order the
  dictionary display writes them.
\<close>

datatype pyval = PyNone | PyStr pystr | PyList "pystr list"

definition opt_str :: "pystr option \<Rightarrow> pyval" where
  "opt_str v = (case v of None \<Rightarrow> PyNone | Some s \<Rightarrow> PyStr s)"

definition to_dict :: "article \<Rightarrow> (pystr \<times> pyval) list" where
  "to_dict a =
     [(py ''title'', PyStr (title a)),
      (py ''content'', PyStr (content a)),
      (py ''url'', PyStr (url a)),
      (py ''source'', PyStr (source a)),
      (py ''author'', opt_str (author a)),
      (py ''date'', (case date a of Some d \<Rightarrow> PyStr (isoformat d) | None \<Rightarrow> PyNone)),
      (py ''summary'', opt_str (summary a)),
      (py ''categories'', PyList (categories a))]"

text \<open>
  Modelled from the spec: the repository has no function that reads the flat key-value
  record back into an Article. The spec's round trip (section 8) and its record layout
  (section 6: \<^verbatim>\<open>date\<close> as ISO-8601 text or absent) give the reader: each key is
  looked up, the date text is parsed as ISO-8601 (by \<open>fromisoformat_310\<close>), and the
  Article is constructed from the values. A missing key, a value of the wrong kind or a
  date that does not parse gives \<open>None\<close>.
\<close>

definition get_str :: "(pystr \<times> pyval) list \<Rightarrow> pystr \<Rightarrow> pystr option" where
  "get_str d k = (case map_of d k of Some (PyStr s) \<Rightarrow> Some s | _ \<Rightarrow> None)"

definition get_opt_str :: "(pystr \<times> pyval) list \<Rightarrow> pystr \<Rightarrow> pystr option option" where
  "get_opt_str d k =
     (case map_of d k of Some (PyStr s) \<Rightarrow> Some (Some s) | Some PyNone \<Rightarrow> Some None
      | _ \<Rightarrow> None)"

definition get_date :: "(pystr \<times> pyval) list \<Rightarrow> datetime option option" where
  "get_date d =
     (case map_of d (py ''date'') of
        Some (PyStr s) \<Rightarrow> map_option Some (fromisoformat_310 s)
      | Some PyNone \<Rightarrow> Some None
      | _ \<Rightarrow> None)"

definition get_list :: "(pystr \<times> pyval) list \<Rightarrow> pystr \<Rightarrow> pystr list option" where
  "get_list d k = (case map_of d k of Some (PyList xs) \<Rightarrow> Some xs | _ \<Rightarrow> None)"

definition from_dict :: "(pystr \<times> pyval) list \<Rightarrow> article option" where
  "from_dict d =
     (case (get_str d (py ''title''), get_str d (py ''content''), get_str d (py ''url''), get_str d (py ''source''),
            get_opt_str d (py ''author''), get_date d, get_opt_str d (py ''summary''),
            get_list d (py ''categories'')) of
        (Some t, Some c, Some u, Some s, Some a, Some dt, Some sm, Some cats) \<Rightarrow>
          Some (NewsArticle t c u s a dt sm (Some cats))
      | _ \<Rightarrow> None)"

text \<open>An article with every optional field in use, for the examples.\<close>

definition sample_article :: article where
  "sample_article =
     NewsArticle (py ''Test Title'') (py ''Test content'') (py ''https://example.com/article'') (py ''example.com'')
       (Some (py ''Test Author''))
       (Some \<lparr>year = 2024, month = 3, day = 1, hour = 12, minute = 0, second = 0,
              microsecond = 0, utcoffset = Some 0\<rparr>)
       None (Some [py ''news'', py ''test''])"

section \<open>The scraper and its fetch client\<close>

text \<open>
  The state of one scraper object together with what it has done to the world: the
  clock it reads, the requests it has issued (start time and URL, oldest first) and the
  error records it has logged. The module configures logging at level INFO, so its
  debug records are dropped and only the error records are kept here.
\<close>

record scraper =
  variant_of :: variant
  base_url :: pystr
  domain :: pystr
  rate_limit :: real
  user_agents :: "pystr list"
  user_agent :: pystr
  last_request_time :: real
  clock :: real
  issued :: "(real \<times> pystr) list"
  logged :: "log_record list"

text \<open>
  The answer to a request: \<^verbatim>\<open>requests.get\<close> raises, with the text of its
  exception (a transport failure), or it returns a response, of which the scraper uses
  the status code, the text of the \<^verbatim>\<open>HTTPError\<close> that \<^verbatim>\<open>raise_for_status\<close>
  raises for it, and the body, given by its parse tree.
  \<^verbatim>\<open>raise_for_status\<close> raises for the statuses 400 to 599 and for no other.
\<close>

datatype answer = Raised pystr | Response nat pystr node

fun raise_for_status :: "answer \<Rightarrow> pystr + node" where
  "raise_for_status (Raised cause) = Inl cause"
| "raise_for_status (Response status_code http_error_msg body) =
     (if 400 \<le> status_code \<and> status_code < 600 then Inl http_error_msg else Inr body)"

text \<open>
  What the scraper cannot decide: the answer to its \<open>n\<close>-th request, how much longer
  than asked its \<open>n\<close>-th sleep lasts, how long its \<open>n\<close>-th request takes, the
  \<open>n\<close>-th random choice, and the interpreter's \<^verbatim>\<open>datetime.fromisoformat\<close>
  (\<open>None\<close> where it raises). The clock moves only while the scraper sleeps or waits
  for a response.
\<close>

record env =
  response :: "nat \<Rightarrow> pystr \<Rightarrow> answer"
  oversleep :: "nat \<Rightarrow> real"
  latency :: "nat \<Rightarrow> real"
  choice :: "nat \<Rightarrow> nat"
  fromisoformat :: iso_parser

definition default_user_agents :: "pystr list" where
  "default_user_agents =
     [py ''Mozilla/5.0 (Windows NT 10.0; Win64; x64) AppleWebKit/537.36 (KHTML, like Gecko) Chrome/91.0.4472.124 Safari/537.36'',
      (py ''Mozilla/5.0 (Macintosh; Intel Mac OS X 10_15_7) AppleWebKit/605.1.15 (KHTML, like Gecko) Version/14.1.1 Safari/605.1.15''),
      (py ''Mozilla/5.0 (X11; Linux x86_64) AppleWebKit/537.36 (KHTML, like Gecko) Chrome/92.0.4515.107 Safari/537.36''),
      (py ''Mozilla/5.0 (Windows NT 10.0; Win64; x64; rv:90.0) Gecko/20100101 Firefox/90.0'')]"

definition random_choice :: "nat \<Rightarrow> pystr list \<Rightarrow> pystr" where
  "random_choice r xs = xs ! (r mod length xs)"

text \<open>
  \<^verbatim>\<open>NewsScraper.__init__\<close>, for a scraper created at time \<open>now\<close>. The host name
  (\<^verbatim>\<open>urlparse(base_url).netloc\<close>) is given with the base URL.
\<close>

definition NewsScraper ::
  "variant \<Rightarrow> pystr \<Rightarrow> pystr \<Rightarrow> pystr list option \<Rightarrow> real \<Rightarrow> nat \<Rightarrow> real \<Rightarrow> scraper" where
  "NewsScraper v base netloc agents rate r now =
     (let uas = (case agents of None \<Rightarrow> default_user_agents
                 | Some xs \<Rightarrow> if xs = [] then default_user_agents else xs)
      in \<lparr>variant_of = v, base_url = base, domain = netloc, rate_limit = rate,
          user_agents = uas, user_agent = random_choice r uas, last_request_time = 0,
          clock = now, issued = [], logged = []\<rparr>)"

definition NYTimesScraper :: "nat \<Rightarrow> real \<Rightarrow> scraper" where
  "NYTimesScraper r now =
     NewsScraper NYTimes (py ''https://www.nytimes.com'') (py ''www.nytimes.com'') None 1 r now"

definition BBCScraper :: "nat \<Rightarrow> real \<Rightarrow> scraper" where
  "BBCScraper r now = NewsScraper BBC (py ''https://www.bbc.com/news'') (py ''www.bbc.com'') None 1 r now"

definition rotate_user_agent :: "env \<Rightarrow> scraper \<Rightarrow> scraper" where
  "rotate_user_agent e s =
     s\<lparr>user_agent := random_choice (choice e (length (issued s))) (user_agents s)\<rparr>"

definition respect_rate_limit :: "env \<Rightarrow> scraper \<Rightarrow> scraper" where
  "respect_rate_limit e s =
     (let current_time = clock s;
          time_since_last_request = current_time - last_request_time s;
          s1 = (if time_since_last_request < rate_limit s
                then (let sleep_time = rate_limit s - time_since_last_request
                      in s\<lparr>clock := clock s + sleep_time + oversleep e (length (issued s))\<rparr>)
                else s)
      in s1\<lparr>last_request_time := clock s1\<rparr>)"

definition make_request :: "env \<Rightarrow> scraper \<Rightarrow> pystr \<Rightarrow> (pystr + node) \<times> scraper" where
  "make_request e s u =
     (let s1 = respect_rate_limit e s;
          s2 = rotate_user_agent e s1;
          n = length (issued s2)
      in (raise_for_status (response e n u),
          s2\<lparr>issued := issued s2 @ [(clock s2, u)], clock := clock s2 + latency e n\<rparr>))"

section \<open>Fetching one article\<close>

text \<open>
  \<^verbatim>\<open>fetch_article\<close> wraps its body in \<^verbatim>\<open>try ... except Exception\<close>. The only
  statement of the body that can raise is \<^verbatim>\<open>_make_request\<close>; its exception is the
  \<open>Inl\<close> result, which is logged and turned into \<open>None\<close>. The extraction methods
  do not raise: date extraction catches its own error and logs it.
\<close>

definition build_article :: "env \<Rightarrow> scraper \<Rightarrow> pystr \<Rightarrow> node \<Rightarrow> article" where
  "build_article e s u soup =
     NewsArticle (extract_title (variant_of s) soup) (extract_content (variant_of s) soup)
       u (domain s) (extract_author (variant_of s) soup)
       (fst (extract_date (fromisoformat e) (variant_of s) soup))
       (extract_summary (variant_of s) soup)
       (Some (extract_categories (variant_of s) soup))"

definition fetch_article :: "env \<Rightarrow> scraper \<Rightarrow> pystr \<Rightarrow> article option \<times> scraper" where
  "fetch_article e s u =
     (case make_request e s u of
        (Inl cause, s1) \<Rightarrow> (None, s1\<lparr>logged := logged s1 @ [ArticleError u cause]\<rparr>)
      | (Inr soup, s1) \<Rightarrow>
          (Some (build_article e s1 u soup),
           s1\<lparr>logged := logged s1 @ snd (extract_date (fromisoformat e) (variant_of s1) soup)\<rparr>))"

section \<open>URL discovery\<close>

text \<open>
  The links of the front page are the \<^verbatim>\<open>href\<close> values of its \<^verbatim>\<open>a\<close> elements
  that have one, in document order. Each discovery loop is a recursion over them with
  the list collected so far; the limit is an integer, as in the source, and is compared
  after a link has been appended. A failed fetch of the front page is logged and gives
  the empty list.
\<close>

definition hrefs :: "node \<Rightarrow> pystr list" where
  "hrefs soup =
     List.map_filter (\<lambda>link. get_attr link (py ''href'')) (find_all soup (py ''a'') [(py ''href'', Present)])"

fun nyt_links :: "pystr \<Rightarrow> int \<Rightarrow> pystr list \<Rightarrow> pystr list \<Rightarrow> pystr list" where
  "nyt_links base limit [] article_links = article_links"
| "nyt_links base limit (href # rest) article_links =
     (if startswith href (py ''/'') then
        (if py_in (py ''/2023/'') href \<or> py_in (py ''/2024/'') href then
           (let full_url = base @ href in
            if full_url \<notin> set article_links then
              (let links' = article_links @ [full_url] in
               if int (length links') \<ge> limit then links'
               else nyt_links base limit rest links')
            else nyt_links base limit rest article_links)
         else nyt_links base limit rest article_links)
      else nyt_links base limit rest article_links)"

fun bbc_links :: "int \<Rightarrow> pystr list \<Rightarrow> pystr list \<Rightarrow> pystr list" where
  "bbc_links limit [] article_links = article_links"
| "bbc_links limit (href # rest) article_links =
     (if startswith href (py ''/news/'') \<and> py_in (py ''-'') href then
        (if href \<notin> set article_links then
           (let href' = (if \<not> startswith href (py ''http'') then (py ''https://www.bbc.com'') @ href
                         else href);
                links' = article_links @ [href'] in
            if int (length links') \<ge> limit then links'
            else bbc_links limit rest links')
         else bbc_links limit rest article_links)
      else bbc_links limit rest article_links)"

definition NewsScraper_get_article_urls :: "env \<Rightarrow> scraper \<Rightarrow> int \<Rightarrow> pystr list \<times> scraper" where
  "NewsScraper_get_article_urls e s limit = ([], s)"

definition NYTimesScraper_get_article_urls ::
  "env \<Rightarrow> scraper \<Rightarrow> int \<Rightarrow> pystr list \<times> scraper" where
  "NYTimesScraper_get_article_urls e s limit =
     (case make_request e s (base_url s) of
        (Inl cause, s1) \<Rightarrow> ([], s1\<lparr>logged := logged s1 @ [UrlsError cause]\<rparr>)
      | (Inr soup, s1) \<Rightarrow> (nyt_links (base_url s1) limit (hrefs soup) [], s1))"

definition BBCScraper_get_article_urls ::
  "env \<Rightarrow> scraper \<Rightarrow> int \<Rightarrow> pystr list \<times> scraper" where
  "BBCScraper_get_article_urls e s limit =
     (case make_request e s (base_url s) of
        (Inl cause, s1) \<Rightarrow> ([], s1\<lparr>logged := logged s1 @ [UrlsError cause]\<rparr>)
      | (Inr soup, s1) \<Rightarrow> (bbc_links limit (hrefs soup) [], s1))"

definition get_article_urls :: "env \<Rightarrow> scraper \<Rightarrow> int \<Rightarrow> pystr list \<times> scraper" where
  "get_article_urls e s limit =
     (case variant_of s of
        Generic \<Rightarrow> NewsScraper_get_article_urls e s limit
      | NYTimes \<Rightarrow> NYTimesScraper_get_article_urls e s limit
      | BBC \<Rightarrow> BBCScraper_get_article_urls e s limit)"

section \<open>Fetching the latest articles\<close>

text \<open>
  The loop of \<^verbatim>\<open>fetch_latest_articles\<close> over the discovered URLs. Nothing in its body
  raises (discovery and \<open>fetch_article\<close> catch their own errors), so its handler,
  which would log \<open>LatestError\<close> and return the empty list, is never entered.
\<close>

fun fetch_loop ::
  "env \<Rightarrow> int \<Rightarrow> pystr list \<Rightarrow> article list \<Rightarrow> scraper \<Rightarrow> article list \<times> scraper" where
  "fetch_loop e limit [] articles s = (articles, s)"
| "fetch_loop e limit (u # rest) articles s =
     (case fetch_article e s u of
        (None, s1) \<Rightarrow> fetch_loop e limit rest articles s1
      | (Some a, s1) \<Rightarrow>
          (let articles' = articles @ [a] in
           if int (length articles') \<ge> limit then (articles', s1)
           else fetch_loop e limit rest articles' s1))"

definition fetch_latest_articles :: "env \<Rightarrow> scraper \<Rightarrow> int \<Rightarrow> article list \<times> scraper" where
  "fetch_latest_articles e s limit =
     (case get_article_urls e s limit of (article_urls, s1) \<Rightarrow> fetch_loop e limit article_urls [] s1)"

section \<open>Notions used in the statements\<close>

text \<open>
  The element a variant's title rule matches, if any: the first \<^verbatim>\<open>h1\<close> in document
  order for the generic variant; for the New York Times the first \<^verbatim>\<open>h1\<close> whose
  \<^verbatim>\<open>data-testid\<close> is \<^verbatim>\<open>headline\<close> and, when there is none, the first
  \<^verbatim>\<open>h1\<close>; for the BBC the first \<^verbatim>\<open>h1\<close> whose \<^verbatim>\<open>id\<close> is
  \<^verbatim>\<open>main-heading\<close>. Then the content blocks a variant's content rule selects.
\<close>

fun title_element :: "variant \<Rightarrow> node \<Rightarrow> node option" where
  "title_element Generic soup = List.find (matches (py ''h1'') []) (descendants soup)"
| "title_element NYTimes soup =
     (case List.find (matches (py ''h1'') [(py ''data-testid'', Equals (py ''headline''))])
             (descendants soup) of
        Some t \<Rightarrow> Some t
      | None \<Rightarrow> List.find (matches (py ''h1'') []) (descendants soup))"
| "title_element BBC soup =
     List.find (matches (py ''h1'') [(py ''id'', Equals (py ''main-heading''))]) (descendants soup)"

fun content_blocks :: "variant \<Rightarrow> node \<Rightarrow> node list" where
  "content_blocks Generic soup = find_all soup (py ''p'') []"
| "content_blocks NYTimes soup =
     (case find soup (py ''section'') [(py ''name'', Equals (py ''articleBody''))] of
        Some article_section \<Rightarrow> find_all article_section (py ''p'') []
      | None \<Rightarrow> find_all soup (py ''p'') [(py ''class'', Equals (py ''css-axufdj''))])"
| "content_blocks BBC soup =
     (case find soup (py ''article'') [] of
        Some article_body \<Rightarrow> find_all article_body (py ''p'') []
      | None \<Rightarrow> [])"

text \<open>A text is trimmed when it neither starts nor ends with whitespace.\<close>

definition trimmed :: "pystr \<Rightarrow> bool" where
  "trimmed s = (s = [] \<or> \<not> py_isspace (hd s) \<and> \<not> py_isspace (last s))"

text \<open>
  For the examples: a page whose heading holds only whitespace (a no-break space among
  it), a page with three headings of which the second is the headline, and pages whose
  first paragraph is empty or holds only a no-break space.
\<close>

definition empty_h1 :: node where
  "empty_h1 = Tag (py ''[document]'') []
     [Tag (py ''h1'') [(py ''id'', py ''main-heading'')] [NavigableString [0x20, 0xA0, 0x20]]]"

definition three_h1 :: node where
  "three_h1 = Tag (py ''[document]'') []
     [Tag (py ''h1'') [] [NavigableString (py ''The New York Times'')],
      Tag (py ''h1'') [(py ''data-testid'', py ''headline'')] [NavigableString (py ''Summit ends'')],
      Tag (py ''h1'') [] [NavigableString (py ''Related coverage'')]]"

definition nbsp_first :: node where
  "nbsp_first = Tag (py ''[document]'') []
     [Tag (py ''p'') [] [NavigableString [0xA0]], Tag (py ''p'') [] [NavigableString (py ''a'')]]"

definition blank_first :: node where
  "blank_first = Tag (py ''[document]'') []
     [Tag (py ''p'') [] [], Tag (py ''p'') [] [NavigableString (py ''a'')]]"

definition two_paragraphs :: node where
  "two_paragraphs = Tag (py ''[document]'') []
     [Tag (py ''article'') [] [Tag (py ''p'') [] [NavigableString (py '' Hello '')],
                          Tag (py ''p'') [] [NavigableString (py ''world'')]]]"

text \<open>
  The hrefs each discovery loop accepts, and the list of the values of a list that are
  new when they are met, in the order they are met.
\<close>

definition nyt_article_href :: "pystr \<Rightarrow> bool" where
  "nyt_article_href href = (startswith href (py ''/'') \<and> (py_in (py ''/2023/'') href \<or> py_in (py ''/2024/'') href))"

definition bbc_article_href :: "pystr \<Rightarrow> bool" where
  "bbc_article_href href = (startswith href (py ''/news/'') \<and> py_in (py ''-'') href)"

fun uniq :: "'a list \<Rightarrow> 'a list \<Rightarrow> 'a list" where
  "uniq seen [] = []"
| "uniq seen (x # xs) = (if x \<in> set seen then uniq seen xs else x # uniq (seen @ [x]) xs)"


text \<open>
  For the examples: a page that holds the given links and nothing else, and a network
  that answers every request at once with status 200 and the same page.
\<close>

definition front_page :: "pystr list \<Rightarrow> node" where
  "front_page hs = Tag (py ''[document]'') [] (map (\<lambda>h. Tag (py ''a'') [(py ''href'', h)] []) hs)"

definition serve :: "node \<Rightarrow> env" where
  "serve page = \<lparr>response = (\<lambda>n u. Response 200 [] page), oversleep = (\<lambda>n. 0),
                  latency = (\<lambda>n. 0), choice = (\<lambda>n. 0), fromisoformat = fromisoformat_310\<rparr>"

definition nyt_front :: node where
  "nyt_front = front_page [py ''/2024/01/15/world/europe/summit.html'', py ''/2025/02/01/us/story.html'',
     (py ''/section/world''), py ''/2024/01/15/world/europe/summit.html'', py ''/2023/12/31/arts/review.html'']"


definition bbc_front :: node where
  "bbc_front = front_page [py ''/news/world-europe-12345678'', py ''/news/world-europe-12345678'']"

definition five_links :: "pystr list" where
  "five_links = [py ''/2024/01/01/a.html'', py ''/2024/01/02/b.html'', py ''/2023/01/03/c.html'',
     (py ''/2024/01/04/d.html''), py ''/2023/01/05/e.html'']"

definition five_bbc_links :: "pystr list" where
  "five_bbc_links = [py ''/news/uk-1'', py ''/news/uk-2'', py ''/news/uk-3'', py ''/news/uk-4'', py ''/news/uk-5'']"

text \<open>
  A run of requests made one after another through one scraper, the pacing of a list of
  start times (consecutive ones at least \<open>gap\<close> apart), and the link between the
  requests issued and \<open>last_request_time\<close>.
\<close>

fun fetches :: "env \<Rightarrow> scraper \<Rightarrow> pystr list \<Rightarrow> scraper" where
  "fetches e s [] = s"
| "fetches e s (u # us) = fetches e (snd (make_request e s u)) us"

fun paced :: "real \<Rightarrow> real list \<Rightarrow> bool" where
  "paced gap [] = True"
| "paced gap [t] = True"
| "paced gap (t1 # t2 # ts) = (gap \<le> t2 - t1 \<and> paced gap (t2 # ts))"

definition tracked :: "scraper \<Rightarrow> bool" where
  "tracked s = (issued s = [] \<or> fst (last (issued s)) = last_request_time s)"

definition slow_net :: env where
  "slow_net = \<lparr>response = (\<lambda>n u. Raised (py ''Read timed out.'')), oversleep = (\<lambda>n. 0),
               latency = (\<lambda>n. 1 / 4), choice = (\<lambda>n. n), fromisoformat = fromisoformat_310\<rparr>"

text \<open>
  What \<open>fetch_article\<close> returns and logs for a URL when it issues request number
  \<open>n\<close>, and the articles and log records of a list of URLs fetched one after another
  from request number \<open>n\<close> on: a URL whose request fails contributes no article and
  one \<open>ArticleError\<close> record. Two scraper states are of the same site when they agree
  on the variant and the host. \<open>needed\<close> is the number of articles after which the
  loop of \<^verbatim>\<open>fetch_latest_articles\<close> stops: the limit, and one for a limit below one.
\<close>

definition outcome :: "env \<Rightarrow> scraper \<Rightarrow> nat \<Rightarrow> pystr \<Rightarrow> article option" where
  "outcome e s n u =
     (case raise_for_status (response e n u) of
        Inl cause \<Rightarrow> None
      | Inr soup \<Rightarrow> Some (build_article e s u soup))"

definition record_of :: "env \<Rightarrow> scraper \<Rightarrow> nat \<Rightarrow> pystr \<Rightarrow> log_record list" where
  "record_of e s n u =
     (case raise_for_status (response e n u) of
        Inl cause \<Rightarrow> [ArticleError u cause]
      | Inr soup \<Rightarrow> snd (extract_date (fromisoformat e) (variant_of s) soup))"

definition needed :: "int \<Rightarrow> nat" where
  "needed limit = max 1 (nat limit)"

fun successes :: "env \<Rightarrow> scraper \<Rightarrow> nat \<Rightarrow> pystr list \<Rightarrow> article list" where
  "successes e s n [] = []"
| "successes e s n (u # us) =
     (case outcome e s n u of None \<Rightarrow> successes e s (Suc n) us
      | Some a \<Rightarrow> a # successes e s (Suc n) us)"

fun records :: "env \<Rightarrow> scraper \<Rightarrow> nat \<Rightarrow> pystr list \<Rightarrow> log_record list" where
  "records e s n [] = []"
| "records e s n (u # us) = record_of e s n u @ records e s (Suc n) us"

definition same_site :: "scraper \<Rightarrow> scraper \<Rightarrow> bool" where
  "same_site s s' = (variant_of s' = variant_of s \<and> domain s' = domain s)"

text \<open>
  For the examples: an article page, a network on which one article is missing (status
  404), a network on which every request ends in \<^verbatim>\<open>TooManyRedirects\<close>, and a
  network that answers every request with status 304 and the article page.
\<close>

definition article_page :: node where
  "article_page = Tag (py ''[document]'') [] [Tag (py ''h1'') [] [NavigableString (py ''Summit ends'')]]"

definition flaky :: env where
  "flaky = \<lparr>response = (\<lambda>n u.
              if u = py ''https://www.nytimes.com'' then Response 200 [] nyt_front
              else if u = py ''https://www.nytimes.com/2024/01/15/world/europe/summit.html''
              then Response 404 (py ''404 Client Error: Not Found'') (Tag (py ''[document]'') [] [])
              else Response 200 [] article_page),
            oversleep = (\<lambda>n. 0), latency = (\<lambda>n. 0), choice = (\<lambda>n. 0),
            fromisoformat = fromisoformat_310\<rparr>"



text \<open>
  The value date extraction reads: the \<^verbatim>\<open>datetime\<close> attribute of the first
  \<^verbatim>\<open>time\<close> element, when it is there and not empty. \<open>normalize_trailing_Z\<close>
  replaces a final \<^verbatim>\<open>Z\<close> only; it is the normalization the specification words,
  kept to compare with what the code does. \<open>time_doc\<close> is a page that holds one
  \<^verbatim>\<open>time\<close> element.
\<close>

definition time_attr :: "node \<Rightarrow> pystr option" where
  "time_attr soup =
     (case find soup (py ''time'') [] of None \<Rightarrow> None
      | Some t \<Rightarrow> (case get_attr t (py ''datetime'') of None \<Rightarrow> None
                   | Some a \<Rightarrow> if a = [] then None else Some a))"

definition normalize_trailing_Z :: "pystr \<Rightarrow> pystr" where
  "normalize_trailing_Z s = (if s \<noteq> [] \<and> last s = (of_char (CHR ''Z'')) then butlast s @ (py ''+00:00'') else s)"

definition time_doc :: "pystr \<Rightarrow> node" where
  "time_doc a = Tag (py ''[document]'') [] [Tag (py ''time'') [(py ''datetime'', a)] []]"

section \<open>Properties\<close>

subsection \<open>Decimal digits\<close>

lemma digit_val_digit_char: "n < 10 \<Longrightarrow> digit_val (digit_char n) = Some n"
proof -
  assume "n < 10"
  then have "n \<in> set [0, 1, 2, 3, 4, 5, 6, 7, 8, 9]"
    by (simp add: numeral_eq_Suc less_Suc_eq)
  then show ?thesis
    by (auto simp: digit_char_def digit_val_def)
qed

lemma read_nat_acc_append:
  "read_nat_acc a (xs @ ys) = (case read_nat_acc a xs of None \<Rightarrow> None | Some b \<Rightarrow> read_nat_acc b ys)"
  by (induction xs arbitrary: a) (auto split: option.splits)

lemma read_nat_acc_dec: "read_nat_acc a (dec n) = Some (a * 10 ^ length (dec n) + n)"
proof (induction n arbitrary: a rule: dec.induct)
  case (1 n)
  show ?case
  proof (cases "n < 10")
    case True
    then show ?thesis by (simp add: dec.simps [of n] digit_val_digit_char)
  next
    case False
    have d: "dec n = dec (n div 10) @ [digit_char (n mod 10)]"
      using False by (simp add: dec.simps [of n])
    have "read_nat_acc a (dec n) = Some ((a * 10 ^ length (dec (n div 10)) + n div 10) * 10 + n mod 10)"
      using 1 [OF False, of a] by (simp add: d read_nat_acc_append digit_val_digit_char)
    also have "(a * 10 ^ length (dec (n div 10)) + n div 10) * 10 + n mod 10 = a * 10 ^ length (dec n) + n"
      by (simp add: d algebra_simps)
    finally show ?thesis .
  qed
qed

lemma read_nat_acc_zeros: "read_nat_acc a (replicate j 48) = Some (a * 10 ^ j)"
  by (induction j arbitrary: a) (auto simp: digit_val_def)

lemma read_nat_acc_zpad: "read_nat_acc 0 (zpad k n) = Some n"
  by (simp add: zpad_def read_nat_acc_append read_nat_acc_zeros read_nat_acc_dec)

lemma length_dec_le: "n < 10 ^ k \<Longrightarrow> 0 < k \<Longrightarrow> length (dec n) \<le> k"
proof (induction n arbitrary: k rule: dec.induct)
  case (1 n)
  show ?case
  proof (cases "n < 10")
    case True
    then show ?thesis using 1(3) by (simp add: dec.simps [of n])
  next
    case False
    obtain j where k: "k = Suc j" using 1(3) by (cases k) auto
    have "0 < j" using False 1(2) k by (cases j) auto
    moreover have "n div 10 < 10 ^ j" using 1(2) k by (simp add: less_mult_imp_div_less)
    ultimately have "length (dec (n div 10)) \<le> j" using 1(1) [OF False] by blast
    then show ?thesis using False k by (simp add: dec.simps [of n])
  qed
qed

lemma length_zpad: "n < 10 ^ k \<Longrightarrow> 0 < k \<Longrightarrow> length (zpad k n) = k"
  using length_dec_le [of n k] by (simp add: zpad_def)

lemma read_digits_zpad:
  "n < 10 ^ k \<Longrightarrow> 0 < k \<Longrightarrow> read_digits k (zpad k n @ rest) = Some (n, rest)"
  by (simp add: read_digits_def length_zpad read_nat_acc_zpad)

lemma sign_not_digit: "is_sign c \<Longrightarrow> digit_val c = None"
  by (auto simp: is_sign_def digit_val_def)

lemma digits_dec: "c \<in> set (dec n) \<Longrightarrow> digit_val c \<noteq> None"
proof (induction n rule: dec.induct)
  case (1 n)
  show ?case
  proof (cases "n < 10")
    case True
    then show ?thesis using 1(2) by (auto simp: dec.simps [of n] digit_val_digit_char)
  next
    case False
    then show ?thesis using 1 by (auto simp: dec.simps [of n] digit_val_digit_char)
  qed
qed

lemma digit_val_zero: "digit_val 48 = Some 0"
  by (simp add: digit_val_def)

lemma digits_zpad: "c \<in> set (zpad k n) \<Longrightarrow> digit_val c \<noteq> None"
  using digits_dec [of c n] by (auto simp: zpad_def digit_val_zero)

lemma zpad_no_sign: "c \<in> set (zpad k n) \<Longrightarrow> \<not> is_sign c"
  using digits_zpad sign_not_digit by blast


subsection \<open>Parsing what \<open>isoformat\<close> writes\<close>

lemma read_digits_zpad_nil:
  "n < 10 ^ k \<Longrightarrow> 0 < k \<Longrightarrow> read_digits k (zpad k n) = Some (n, [])"
  using read_digits_zpad [of n k "[]"] by simp

lemma parse_hms:
  assumes "h < 100" "m < 100" "s < 100" "us < 1000000"
  shows "parse_hh_mm_ss_ff (hms h m s us) = Some (h, m, s, us)"
  using assms
  by (simp add: parse_hh_mm_ss_ff_def hms_def read_digits_zpad read_digits_zpad_nil
      length_zpad read_nat_acc_zpad)

lemma parse_hm:
  assumes "h < 100" "m < 100"
  shows "parse_hh_mm_ss_ff (zpad 2 h @ (py '':'') @ zpad 2 m) = Some (h, m, 0, 0)"
  using assms
  by (simp add: parse_hh_mm_ss_ff_def read_digits_zpad read_digits_zpad_nil)

lemma length_hms:
  assumes "h < 100" "m < 100" "s < 100" "us < 1000000"
  shows "length (hms h m s us) = (if us \<noteq> 0 then 15 else 8)"
  using assms by (simp add: hms_def length_zpad)

lemma hms_no_sign: "c \<in> set (hms h m s us) \<Longrightarrow> \<not> is_sign c"
  by (auto simp: hms_def is_sign_def dest: zpad_no_sign [unfolded is_sign_def] split: if_splits)


lemma recompose_aux:
  fixes a h r m q s f :: nat
  assumes "a = h * 3600000000 + r" "r = m * 60000000 + q" "q = s * 1000000 + f"
  shows "((h * 60 + m) * 60 + s) * 1000000 + f = a"
  using assms by simp

lemma offset_recompose:
  "((a div 3600000000 * 60 + (a mod 3600000000) div 60000000) * 60 +
      (a mod 60000000) div 1000000) * 1000000 + a mod 1000000 = (a::nat)"
proof -
  have m1: "(a mod 3600000000) mod 60000000 = a mod 60000000"
    by (rule mod_mod_cancel) simp
  have m2: "(a mod 60000000) mod 1000000 = a mod 1000000"
    by (rule mod_mod_cancel) simp
  have e1: "a = a div 3600000000 * 3600000000 + a mod 3600000000"
    by simp
  have e2: "a mod 3600000000 = (a mod 3600000000) div 60000000 * 60000000 + a mod 60000000"
    using div_mult_mod_eq [of "a mod 3600000000" 60000000] m1 by simp
  have e3: "a mod 60000000 = (a mod 60000000) div 1000000 * 1000000 + a mod 1000000"
    using div_mult_mod_eq [of "a mod 60000000" 1000000] m2 by simp
  show ?thesis
    by (rule recompose_aux [OF e1 e2 e3])
qed

lemma parse_time_naive:
  assumes "h < 100" "m < 100" "s < 100" "us < 1000000"
  shows "parse_isoformat_time (hms h m s us) = Some (h, m, s, us, None)"
proof -
  have nosign: "\<And>c. c \<in> set (hms h m s us) \<Longrightarrow> \<not> is_sign c"
    by (rule hms_no_sign)
  have tw: "takeWhile (\<lambda>c. \<not> is_sign c) (hms h m s us) = hms h m s us"
    using nosign by (simp add: takeWhile_eq_all_conv)
  have dw: "dropWhile (\<lambda>c. \<not> is_sign c) (hms h m s us) = []"
    using nosign by (simp add: dropWhile_eq_Nil_conv)
  show ?thesis
    using assms by (simp add: parse_isoformat_time_def tw dw parse_hms)
qed

lemma parse_time_aware:
  assumes "h < 100" "m < 100" "s < 100" "us < 1000000" "\<bar>t\<bar> < 86400000000"
  shows "parse_isoformat_time (hms h m s us @ format_offset (Some t)) = Some (h, m, s, us, Some t)"
proof -
  define a where "a = nat \<bar>t\<bar>"
  define hh where "hh = a div 3600000000"
  define mm where "mm = (a mod 3600000000) div 60000000"
  define ss where "ss = (a mod 60000000) div 1000000"
  define ff where "ff = a mod 1000000"
  define sg :: nat where "sg = (if t < 0 then of_char (CHR ''-'') else of_char (CHR ''+''))"
  define tzstr where "tzstr = (if ss \<noteq> 0 \<or> ff \<noteq> 0 then hms hh mm ss ff else zpad 2 hh @ (py '':'') @ zpad 2 mm)"
  have a_lt: "a < 86400000000" using assms(5) by (simp add: a_def)
  have hh_lt: "hh < 100" using a_lt by (simp add: hh_def less_mult_imp_div_less)
  have mm_lt: "mm < 100" by (simp add: mm_def less_mult_imp_div_less)
  have ss_lt: "ss < 100" by (simp add: ss_def less_mult_imp_div_less)
  have ff_lt: "ff < 1000000" by (simp add: ff_def)
  have fo: "format_offset (Some t) = sg # tzstr"
    by (simp add: format_offset_def Let_def a_def [symmetric] hh_def [symmetric] mm_def [symmetric]
        ss_def [symmetric] ff_def [symmetric] sg_def tzstr_def hms_def)
  have sgs: "is_sign sg" by (simp add: sg_def is_sign_def)
  have nosign: "\<And>c. c \<in> set (hms h m s us) \<Longrightarrow> \<not> is_sign c"
    by (rule hms_no_sign)
  have tw: "takeWhile (\<lambda>c. \<not> is_sign c) (hms h m s us @ sg # tzstr) = hms h m s us"
    using nosign sgs by (simp add: takeWhile_append2)
  have dw: "dropWhile (\<lambda>c. \<not> is_sign c) (hms h m s us @ sg # tzstr) = sg # tzstr"
    using nosign sgs by (simp add: dropWhile_append2)
  have len: "length tzstr \<in> set [5, 8, 15]"
    using hh_lt mm_lt ss_lt ff_lt by (simp add: tzstr_def length_hms length_zpad)
  have ptz: "parse_hh_mm_ss_ff tzstr = Some (hh, mm, ss, ff)"
  proof (cases "ss \<noteq> 0 \<or> ff \<noteq> 0")
    case True
    then show ?thesis using hh_lt mm_lt ss_lt ff_lt by (simp add: tzstr_def parse_hms)
  next
    case False
    then have "tzstr = zpad 2 hh @ (py '':'') @ zpad 2 mm" by (simp add: tzstr_def)
    then show ?thesis using False parse_hm [OF hh_lt mm_lt] by simp
  qed
  have val: "(if sg = (of_char (CHR ''-'')) then - 1 else 1) * int (((hh * 60 + mm) * 60 + ss) * 1000000 + ff) = t"
  proof -
    have "((hh * 60 + mm) * 60 + ss) * 1000000 + ff = a"
      unfolding hh_def mm_def ss_def ff_def by (rule offset_recompose)
    then show ?thesis by (simp add: sg_def a_def)
  qed
  show ?thesis
    using assms(1-4) len
    by (simp only: fo parse_isoformat_time_def Let_def tw dw parse_hms ptz val
        option.case prod.case list.case if_False not_True_eq_False simp_thms)
qed


lemma parse_time_any:
  assumes "h < 100" "m < 100" "s < 100" "us < 1000000"
    and "case off of None \<Rightarrow> True | Some t \<Rightarrow> \<bar>t\<bar> < 86400000000"
  shows "parse_isoformat_time (hms h m s us @ format_offset off) = Some (h, m, s, us, off)"
proof (cases off)
  case None
  then show ?thesis using parse_time_naive [OF assms(1-4)] by (simp add: format_offset_def)
next
  case (Some t)
  then show ?thesis using parse_time_aware [OF assms(1-4), of t] assms(5) by simp
qed

lemma isoformat_shape:
  "isoformat d = zpad 4 (year d) @ (of_char (CHR ''-'')) # zpad 2 (month d) @ (of_char (CHR ''-'')) # zpad 2 (day d) @
     (of_char (CHR ''T'')) # (hms (hour d) (minute d) (second d) (microsecond d) @ format_offset (utcoffset d))"
  by (simp add: isoformat_def hms_def)

lemma days_in_month_le: "days_in_month y m \<le> 31"
  by (simp add: days_in_month_def)

lemma fromisoformat_isoformat:
  assumes "valid_datetime d"
  shows "fromisoformat_310 (isoformat d) = Some d"
proof -
  have y: "year d < 10 ^ 4" and mo: "month d < 10 ^ 2" and dd: "day d < 10 ^ 2"
    using assms days_in_month_le [of "year d" "month d"] by (auto simp: valid_datetime_def)
  have t: "hour d < 100" "minute d < 100" "second d < 100" "microsecond d < 1000000"
    "case utcoffset d of None \<Rightarrow> True | Some t \<Rightarrow> \<bar>t\<bar> < 86400000000"
    using assms by (auto simp: valid_datetime_def)
  have pt: "parse_isoformat_time
      (hms (hour d) (minute d) (second d) (microsecond d) @ format_offset (utcoffset d)) =
      Some (hour d, minute d, second d, microsecond d, utcoffset d)"
    by (rule parse_time_any [OF t])
  have nd: "new_datetime (year d) (month d) (day d)
      (hour d, minute d, second d, microsecond d, utcoffset d) = Some d"
  proof -
    have eta: "\<lparr>year = year d, month = month d, day = day d, hour = hour d, minute = minute d,
           second = second d, microsecond = microsecond d, utcoffset = utcoffset d\<rparr> = d"
      by (cases d) simp
    show ?thesis
      unfolding new_datetime_def Let_def prod.case eta using assms by simp
  qed
  show ?thesis
    unfolding isoformat_shape fromisoformat_310_def
    by (simp add: read_digits_zpad [OF y] read_digits_zpad [OF mo] read_digits_zpad [OF dd] pt nd)
qed

subsection \<open>Serializing an article\<close>

lemma get_fields:
  "get_str (to_dict a) (py ''title'') = Some (title a)"
  "get_str (to_dict a) (py ''content'') = Some (content a)"
  "get_str (to_dict a) (py ''url'') = Some (url a)"
  "get_str (to_dict a) (py ''source'') = Some (source a)"
  "get_opt_str (to_dict a) (py ''author'') = Some (author a)"
  "get_opt_str (to_dict a) (py ''summary'') = Some (summary a)"
  "get_list (to_dict a) (py ''categories'') = Some (categories a)"
  by (simp_all add: get_str_def get_opt_str_def get_list_def to_dict_def opt_str_def
      split: option.splits)

lemma get_date_to_dict:
  assumes "case date a of None \<Rightarrow> True | Some d \<Rightarrow> valid_datetime d"
  shows "get_date (to_dict a) = Some (date a)"
  using assms
  by (auto simp: get_date_def to_dict_def fromisoformat_isoformat split: option.splits)

text \<open>
  Claim C9. Writing an Article to the flat key-value record with \<open>to_dict\<close> and reading
  the record back gives the same Article: title, content, url, source, author, summary
  and categories are the same, the date is the same timestamp, and an absent date stays
  absent. The date of an Article is a valid \<^verbatim>\<open>datetime\<close> value.
\<close>

theorem to_dict_round_trip:
  assumes "case date a of None \<Rightarrow> True | Some d \<Rightarrow> valid_datetime d"
  shows "from_dict (to_dict a) = Some a"
proof -
  have eta: "\<lparr>title = title a, content = content a, url = url a, source = source a,
      author = author a, date = date a, summary = summary a, categories = categories a\<rparr> = a"
    by (cases a) simp
  show ?thesis
    unfolding from_dict_def get_fields get_date_to_dict [OF assms] NewsArticle_def
    by (simp add: eta)
qed

theorem to_dict_round_trip_witness:
  "(case date sample_article of None \<Rightarrow> True | Some d \<Rightarrow> valid_datetime d) \<and>
   from_dict (to_dict sample_article) = Some sample_article"
  using to_dict_round_trip [of sample_article]
  by (simp add: sample_article_def NewsArticle_def valid_datetime_def days_in_month_def is_leap_def)


subsection \<open>Searching the parse tree\<close>

lemma find_Some_in: "find nd name fs = Some t \<Longrightarrow> t \<in> set (find_all nd name fs)"
  by (auto simp: find_def split: list.splits)

lemma find_None_iff: "find nd name fs = None \<longleftrightarrow> find_all nd name fs = []"
  by (auto simp: find_def split: list.splits)

lemma matches_weaken: "matches name fs t \<Longrightarrow> matches name [] t"
  by (cases t) auto

lemma find_all_weaken: "set (find_all nd name fs) \<subseteq> set (find_all nd name [])"
  by (auto simp: find_all_def matches_weaken)

subsection \<open>Trimmed texts\<close>

lemma strip_trimmed: "trimmed (py_strip s)"
proof -
  define t where "t = dropWhile py_isspace s"
  define u where "u = dropWhile py_isspace (rev t)"
  have r: "py_strip s = rev u" by (simp add: py_strip_def t_def u_def)
  show ?thesis
  proof (cases "u = []")
    case True
    then show ?thesis by (simp add: r trimmed_def)
  next
    case False
    have l: "\<not> py_isspace (hd u)"
      using False hd_dropWhile [of py_isspace "rev t"] by (simp add: u_def)
    have "t \<noteq> []" using False by (auto simp: u_def)
    then have ht: "\<not> py_isspace (hd t)"
      using hd_dropWhile [of py_isspace s] by (simp add: t_def)
    obtain ws where ws: "rev t = ws @ u"
      using takeWhile_dropWhile_id [of py_isspace "rev t"] by (metis u_def)
    then have "t = rev u @ rev ws" by (metis rev_append rev_rev_ident)
    then have "hd (rev u) = hd t" using False by simp
    then show ?thesis using False l ht by (simp add: r trimmed_def last_rev)
  qed
qed

lemma trimmed_strip: "trimmed s \<Longrightarrow> py_strip s = s"
proof (cases "s = []")
  case True
  then show ?thesis by (simp add: py_strip_def)
next
  case False
  assume "trimmed s"
  then have h: "\<not> py_isspace (hd s)" and l: "\<not> py_isspace (last s)"
    using False by (auto simp: trimmed_def)
  have a: "dropWhile py_isspace s = s" using False h by (cases s) auto
  have "\<not> py_isspace (hd (rev s))" using False l by (simp add: hd_rev)
  then have b: "dropWhile py_isspace (rev s) = rev s" using False by (cases "rev s") auto
  show ?thesis by (simp add: py_strip_def a b)
qed

lemma trimmed_iff: "trimmed s \<longleftrightarrow> py_strip s = s"
  using strip_trimmed [of s] trimmed_strip [of s] by auto

lemma tag_text_fun: "tag_text = (\<lambda>p. py_strip (get_text p))"
  by (rule ext) (simp add: tag_text_def)

lemma hd_py_join: "x \<noteq> [] \<Longrightarrow> hd (py_join sep (x # xs)) = hd x"
  by (cases xs) auto

lemma last_py_join_aux:
  "xs \<noteq> [] \<Longrightarrow> last xs \<noteq> [] \<Longrightarrow>
     py_join sep xs \<noteq> [] \<and> last (py_join sep xs) = last (last xs)"
  by (induction sep xs rule: py_join.induct) auto

lemma last_py_join:
  "xs \<noteq> [] \<Longrightarrow> last xs \<noteq> [] \<Longrightarrow> last (py_join sep xs) = last (last xs)"
  using last_py_join_aux by blast

lemma py_join_trimmed:
  assumes "xs \<noteq> []" "hd xs \<noteq> []" "last xs \<noteq> []" "trimmed (hd xs)" "trimmed (last xs)"
  shows "trimmed (py_join sep xs)"
proof -
  obtain x rest where xs: "xs = x # rest" using assms(1) by (cases xs) auto
  have h: "hd (py_join sep xs) = hd (hd xs)" using assms(2) xs by (simp add: hd_py_join)
  have l: "last (py_join sep xs) = last (last xs)" using assms(1,3) by (rule last_py_join)
  show ?thesis using assms(2-5) h l by (auto simp: trimmed_def)
qed

subsection \<open>Titles\<close>

lemma first_of_filter:
  "(case filter P xs of [] \<Rightarrow> None | x # _ \<Rightarrow> Some x) = List.find P xs"
  by (induction xs) auto

lemma find_first: "find nd name fs = List.find (matches name fs) (descendants nd)"
  by (simp add: find_def find_all_def first_of_filter)

lemma sentinel_trimmed: "trimmed (py ''Unknown Title'')"
  by (simp add: trimmed_def py_isspace_def)

lemma title_trimmed: "trimmed (extract_title v soup)"
  by (cases v)
     (auto simp: NewsScraper_extract_title_def NYTimesScraper_extract_title_def
        BBCScraper_extract_title_def tag_text_def strip_trimmed sentinel_trimmed [simplified]
        split: option.splits)

lemma title_of_element:
  "extract_title v soup =
     (case title_element v soup of None \<Rightarrow> py ''Unknown Title''
      | Some t \<Rightarrow> py_strip (get_text t))"
  by (cases v)
     (simp_all add: NewsScraper_extract_title_def NYTimesScraper_extract_title_def
        BBCScraper_extract_title_def tag_text_def find_first split: option.splits)

text \<open>
  Claim C5, as amended. For every source variant and every parsed document the title is
  a string: the sentinel \<^verbatim>\<open>Unknown Title\<close> when no element matches the variant's
  title rule, and otherwise the text of the element the rule matches (the first one in
  document order; for the New York Times the first headline \<^verbatim>\<open>h1\<close> before any
  other \<^verbatim>\<open>h1\<close>) with the whitespace at both ends stripped. The result is always
  trimmed; it is empty when the matched element has no text but whitespace.
\<close>

theorem extract_title_sentinel_or_text:
  "extract_title v soup =
     (case title_element v soup of None \<Rightarrow> py ''Unknown Title''
      | Some t \<Rightarrow> py_strip (get_text t)) \<and>
   trimmed (extract_title v soup)"
  using title_of_element title_trimmed by blast

text \<open>
  The claim as first stated (the title is never empty) fails on a heading that holds only
  whitespace, here spaces around a no-break space: each variant returns the empty string
  for it.
\<close>

theorem extract_title_empty_counterexample:
  "extract_title Generic empty_h1 = [] \<and> extract_title NYTimes empty_h1 = [] \<and>
   extract_title BBC empty_h1 = []"
  by (simp add: empty_h1_def NewsScraper_extract_title_def NYTimesScraper_extract_title_def
      BBCScraper_extract_title_def find_def find_all_def tag_text_def py_strip_def py_isspace_def
      value_matches_def)

theorem extract_title_witness:
  "title_element NYTimes three_h1 =
     Some (Tag (py ''h1'') [(py ''data-testid'', py ''headline'')] [NavigableString (py ''Summit ends'')]) \<and>
   extract_title NYTimes three_h1 = py ''Summit ends'' \<and>
   extract_title Generic three_h1 = py ''The New York Times'' \<and>
   title_element BBC three_h1 = None \<and>
   extract_title BBC three_h1 = py ''Unknown Title''"
  using extract_title_sentinel_or_text [of NYTimes three_h1]
    extract_title_sentinel_or_text [of Generic three_h1]
    extract_title_sentinel_or_text [of BBC three_h1]
  by (simp add: three_h1_def value_matches_def py_strip_def py_isspace_def)

subsection \<open>Content\<close>

lemma content_joins:
  "extract_content v soup = py_join (py '' '') (map (\<lambda>p. py_strip (get_text p)) (content_blocks v soup))"
  by (cases v)
     (auto simp: NewsScraper_extract_content_def NYTimesScraper_extract_content_def
        BBCScraper_extract_content_def paragraph_texts_def tag_text_fun
        split: option.splits)

text \<open>
  Claim C8, as amended. For every source variant and every parsed document the content
  is the texts of the selected content blocks, each trimmed on its own, joined by single
  spaces, and it is the empty string when no block is selected. The joined text is not
  trimmed again: it is trimmed when the first and the last block have text other than
  whitespace.
\<close>

theorem extract_content_joined:
  "extract_content v soup =
     py_join (py '' '') (map (\<lambda>p. py_strip (get_text p)) (content_blocks v soup)) \<and>
   (content_blocks v soup = [] \<longrightarrow> extract_content v soup = []) \<and>
   (content_blocks v soup \<noteq> [] \<and> py_strip (get_text (hd (content_blocks v soup))) \<noteq> [] \<and>
    py_strip (get_text (last (content_blocks v soup))) \<noteq> [] \<longrightarrow>
      py_strip (extract_content v soup) = extract_content v soup)"
proof -
  let ?ts = "map (\<lambda>p. py_strip (get_text p)) (content_blocks v soup)"
  have a: "extract_content v soup = py_join (py '' '') ?ts" by (rule content_joins)
  have b: "content_blocks v soup = [] \<longrightarrow> extract_content v soup = []" by (simp add: a)
  have c: "py_strip (extract_content v soup) = extract_content v soup"
    if "content_blocks v soup \<noteq> []" "py_strip (get_text (hd (content_blocks v soup))) \<noteq> []"
      "py_strip (get_text (last (content_blocks v soup))) \<noteq> []"
  proof -
    have "trimmed (py_join (py '' '') ?ts)"
      using that by (intro py_join_trimmed) (simp_all add: hd_map last_map strip_trimmed)
    then show ?thesis by (simp add: a trimmed_strip)
  qed
  show ?thesis using a b c by blast
qed

text \<open>
  The claim as first stated (the joined text is trimmed) fails when the first block is
  empty or holds only whitespace, such as a no-break space: the result starts with the
  separating space.
\<close>

theorem extract_content_counterexample:
  "extract_content Generic blank_first = py '' a'' \<and>
   py_strip (extract_content Generic blank_first) \<noteq> extract_content Generic blank_first \<and>
   extract_content Generic nbsp_first = py '' a'' \<and>
   py_strip (extract_content Generic nbsp_first) \<noteq> extract_content Generic nbsp_first"
  by (simp add: blank_first_def nbsp_first_def NewsScraper_extract_content_def
      paragraph_texts_def find_all_def tag_text_def py_strip_def py_isspace_def)

theorem extract_content_witness:
  "content_blocks BBC (Tag (py ''[document]'') [] []) = [] \<and>
   extract_content BBC (Tag (py ''[document]'') [] []) = [] \<and>
   content_blocks BBC two_paragraphs \<noteq> [] \<and>
   py_strip (get_text (hd (content_blocks BBC two_paragraphs))) \<noteq> [] \<and>
   py_strip (get_text (last (content_blocks BBC two_paragraphs))) \<noteq> [] \<and>
   extract_content BBC two_paragraphs = (py ''Hello world'') \<and>
   py_strip (extract_content BBC two_paragraphs) = extract_content BBC two_paragraphs"
  using extract_content_joined [of BBC "Tag (py ''[document]'') [] []"]
    extract_content_joined [of BBC two_paragraphs]
  by (simp add: two_paragraphs_def find_def find_all_def py_strip_def py_isspace_def)


subsection \<open>URL discovery\<close>



lemma nyt_links_distinct: "distinct acc \<Longrightarrow> distinct (nyt_links base limit hs acc)"
  by (induction hs arbitrary: acc) (auto simp: Let_def)

lemma nyt_links_length:
  "int (length acc) < limit \<Longrightarrow> int (length (nyt_links base limit hs acc)) \<le> limit"
  by (induction hs arbitrary: acc) (auto simp: Let_def)

lemma nyt_links_uniq:
  "int (length acc) < limit \<Longrightarrow>
     nyt_links base limit hs acc =
       acc @ take (nat limit - length acc) (uniq acc (map (\<lambda>h. base @ h) (filter nyt_article_href hs)))"
proof (induction hs arbitrary: acc)
  case Nil
  then show ?case by simp
next
  case (Cons h hs)
  show ?case
  proof (cases "nyt_article_href h \<and> base @ h \<notin> set acc")
    case False
    then show ?thesis using Cons by (auto simp: nyt_article_href_def)
  next
    case True
    show ?thesis
    proof (cases "int (length (acc @ [base @ h])) \<ge> limit")
      case full: True
      then have "nat limit - length acc = 1" using Cons.prems by auto
      then show ?thesis using True full by (auto simp: nyt_article_href_def Let_def)
    next
      case more: False
      then have lt: "int (length (acc @ [base @ h])) < limit" by simp
      have "nat limit - length acc = Suc (nat limit - length (acc @ [base @ h]))"
        using lt by auto
      then show ?thesis using True more Cons.IH [OF lt]
        by (auto simp: nyt_article_href_def Let_def)
    qed
  qed
qed

lemma startswith_news_not_http: "startswith h (py ''/news/'') \<Longrightarrow> \<not> startswith h (py ''http'')"
  by (cases h) (auto simp: startswith_def)

lemma bbc_links_take:
  assumes "int (length acc) < limit" "\<forall>u \<in> set acc. \<not> startswith u (py ''/news/'')"
  shows "bbc_links limit hs acc =
       acc @ take (nat limit - length acc)
               (map (\<lambda>h. (py ''https://www.bbc.com'') @ h) (filter bbc_article_href hs))"
  using assms
proof (induction hs arbitrary: acc)
  case Nil
  then show ?case by simp
next
  case (Cons h hs)
  show ?case
  proof (cases "bbc_article_href h")
    case False
    then show ?thesis using Cons by (auto simp: bbc_article_href_def)
  next
    case True
    then have sw: "startswith h (py ''/news/'')" by (simp add: bbc_article_href_def)
    then have fresh: "h \<notin> set acc" using Cons.prems(2) by auto
    have nh: "\<not> startswith h (py ''http'')" using sw by (rule startswith_news_not_http)
    let ?acc' = "acc @ [(py ''https://www.bbc.com'') @ h]"
    have inv: "\<forall>u \<in> set ?acc'. \<not> startswith u (py ''/news/'')"
      using Cons.prems(2) by (auto simp: startswith_def)
    show ?thesis
    proof (cases "int (length ?acc') \<ge> limit")
      case full: True
      then have "nat limit - length acc = 1" using Cons.prems(1) by auto
      then show ?thesis using True full fresh nh sw
        by (simp add: bbc_article_href_def Let_def)
    next
      case more: False
      then have lt: "int (length ?acc') < limit" by simp
      have "nat limit - length acc = Suc (nat limit - length ?acc')"
        using lt by auto
      then show ?thesis using True more fresh nh sw Cons.IH [OF lt inv]
        by (simp add: bbc_article_href_def Let_def)
    qed
  qed
qed

lemma hrefs_front_page: "hrefs (front_page hs) = hs"
  by (induction hs) (auto simp: hrefs_def front_page_def find_all_def List.map_filter_def comp_def)

lemma make_request_serve: "fst (make_request (serve page) s u) = Inr page"
  by (simp add: make_request_def serve_def Let_def)

lemma make_request_base_url [simp]: "base_url (snd (make_request e s u)) = base_url s"
  by (simp add: make_request_def respect_rate_limit_def rotate_user_agent_def Let_def)

lemma nyt_urls_cases:
  "fst (NYTimesScraper_get_article_urls e s limit) =
     (case fst (make_request e s (base_url s)) of
        Inl cause \<Rightarrow> []
      | Inr soup \<Rightarrow> nyt_links (base_url s) limit (hrefs soup) [])"
proof -
  obtain r s1 where m: "make_request e s (base_url s) = (r, s1)" by (cases "make_request e s (base_url s)")
  then have "base_url s1 = base_url s" using make_request_base_url [of e s "base_url s"] by simp
  then show ?thesis using m
    by (simp add: NYTimesScraper_get_article_urls_def split: sum.splits)
qed

lemma bbc_urls_cases:
  "fst (BBCScraper_get_article_urls e s limit) =
     (case fst (make_request e s (base_url s)) of
        Inl cause \<Rightarrow> []
      | Inr soup \<Rightarrow> bbc_links limit (hrefs soup) [])"
  by (cases "make_request e s (base_url s)")
     (simp add: BBCScraper_get_article_urls_def split: sum.splits)


lemma nyt_urls_distinct: "distinct (fst (NYTimesScraper_get_article_urls e s limit))"
  by (simp add: nyt_urls_cases nyt_links_distinct split: sum.splits)

lemma nyt_scraper_base: "base_url (NYTimesScraper r now) = (py ''https://www.nytimes.com'')"
  by (simp add: NYTimesScraper_def NewsScraper_def)

lemma bbc_scraper_base: "base_url (BBCScraper r now) = (py ''https://www.bbc.com/news'')"
  by (simp add: BBCScraper_def NewsScraper_def)

lemma nyt_urls_take:
  assumes "1 \<le> limit"
  shows "fst (NYTimesScraper_get_article_urls e s limit) =
     (case fst (make_request e s (base_url s)) of
        Inl cause \<Rightarrow> []
      | Inr soup \<Rightarrow>
          take (nat limit) (uniq [] (map (\<lambda>h. base_url s @ h) (filter nyt_article_href (hrefs soup)))))"
  using assms nyt_links_uniq [of "[]" limit "base_url s"]
  by (simp add: nyt_urls_cases split: sum.splits)

lemma bbc_urls_take:
  assumes "1 \<le> limit"
  shows "fst (BBCScraper_get_article_urls e s limit) =
     (case fst (make_request e s (base_url s)) of
        Inl cause \<Rightarrow> []
      | Inr soup \<Rightarrow>
          take (nat limit) (map (\<lambda>h. (py ''https://www.bbc.com'') @ h) (filter bbc_article_href (hrefs soup))))"
  using assms bbc_links_take [of "[]" limit]
  by (simp add: bbc_urls_cases split: sum.splits)

lemma get_article_urls_length:
  assumes "1 \<le> limit"
  shows "int (length (fst (get_article_urls e s limit))) \<le> limit"
proof (cases "variant_of s")
  case Generic
  then show ?thesis using assms
    by (simp add: get_article_urls_def NewsScraper_get_article_urls_def)
next
  case NYTimes
  then show ?thesis using assms
    by (auto simp: get_article_urls_def nyt_urls_take split: sum.splits)
next
  case BBC
  then show ?thesis using assms
    by (auto simp: get_article_urls_def bbc_urls_take split: sum.splits)
qed

lemma five_of_three_nyt:
  "fst (NYTimesScraper_get_article_urls (serve (front_page five_links)) (NYTimesScraper 0 0) 3) =
     [py ''https://www.nytimes.com/2024/01/01/a.html'', py ''https://www.nytimes.com/2024/01/02/b.html'',
      (py ''https://www.nytimes.com/2023/01/03/c.html'')]"
  by (simp add: nyt_urls_cases make_request_serve nyt_scraper_base five_links_def hrefs_front_page
      startswith_def Let_def)

lemma five_of_three_bbc:
  "fst (BBCScraper_get_article_urls (serve (front_page five_bbc_links)) (BBCScraper 0 0) 3) =
     [py ''https://www.bbc.com/news/uk-1'', py ''https://www.bbc.com/news/uk-2'',
      (py ''https://www.bbc.com/news/uk-3'')]"
  by (simp add: bbc_urls_cases make_request_serve five_bbc_links_def hrefs_front_page
      startswith_def Let_def)





text \<open>
  Claim C3 does not hold for the BBC variant. Its loop looks the raw href up among the
  absolute URLs collected so far, so the test never finds it: a front page that links
  the same article twice gives the same URL twice. (The New York Times loop looks the
  absolute URL up, see \<open>nyt_urls_distinct\<close>.)
\<close>

theorem bbc_urls_repeat:
  "fst (BBCScraper_get_article_urls (serve bbc_front) (BBCScraper 0 0) 10) =
     [py ''https://www.bbc.com/news/world-europe-12345678'',
      (py ''https://www.bbc.com/news/world-europe-12345678'')] \<and>
   \<not> distinct (fst (BBCScraper_get_article_urls (serve bbc_front) (BBCScraper 0 0) 10))"
  by (simp add: bbc_urls_cases make_request_serve bbc_front_def hrefs_front_page startswith_def
      Let_def)

text \<open>
  Claim C7 does not hold for a limit of zero. Both loops compare the number of links with
  the limit only after appending one, so with limit 0 the first qualifying link is still
  returned. For a limit of at least one the bound holds (\<open>get_article_urls_length\<close>),
  and the links are the first ones in document order (\<open>nyt_urls_take\<close>,
  \<open>bbc_urls_take\<close>, \<open>five_of_three_nyt\<close>, \<open>five_of_three_bbc\<close>).
\<close>

theorem urls_limit_zero:
  "fst (NYTimesScraper_get_article_urls (serve nyt_front) (NYTimesScraper 0 0) 0) =
     [py ''https://www.nytimes.com/2024/01/15/world/europe/summit.html''] \<and>
   fst (BBCScraper_get_article_urls (serve bbc_front) (BBCScraper 0 0) 0) =
     [py ''https://www.bbc.com/news/world-europe-12345678''] \<and>
   \<not> int (length (fst (NYTimesScraper_get_article_urls (serve nyt_front) (NYTimesScraper 0 0) 0))) \<le> 0"
  by (simp add: nyt_urls_cases bbc_urls_cases make_request_serve nyt_scraper_base nyt_front_def
      bbc_front_def hrefs_front_page startswith_def Let_def)


subsection \<open>Pacing of requests\<close>

lemma paced_snoc:
  "paced gap (ts @ [t]) \<longleftrightarrow> paced gap ts \<and> (ts = [] \<or> gap \<le> t - last ts)"
  by (induction gap ts rule: paced.induct) auto

lemma paced_nth:
  "paced gap ts \<Longrightarrow> Suc i < length ts \<Longrightarrow> gap \<le> ts ! Suc i - ts ! i"
proof (induction gap ts arbitrary: i rule: paced.induct)
  case (3 gap t1 t2 ts)
  then show ?case by (cases i) auto
qed auto

lemma respect_waits:
  assumes "0 \<le> oversleep e (length (issued s))"
  shows "last_request_time s + rate_limit s \<le> last_request_time (respect_rate_limit e s)"
  using assms by (simp add: respect_rate_limit_def Let_def)

lemma respect_fields [simp]:
  "issued (respect_rate_limit e s) = issued s"
  "rate_limit (respect_rate_limit e s) = rate_limit s"
  "last_request_time (respect_rate_limit e s) = clock (respect_rate_limit e s)"
  by (simp_all add: respect_rate_limit_def Let_def)

lemma make_request_fields:
  "issued (snd (make_request e s u)) = issued s @ [(last_request_time (respect_rate_limit e s), u)]"
  "rate_limit (snd (make_request e s u)) = rate_limit s"
  "last_request_time (snd (make_request e s u)) = last_request_time (respect_rate_limit e s)"
  by (simp_all add: make_request_def rotate_user_agent_def Let_def)

lemma make_request_paced:
  assumes "0 \<le> oversleep e (length (issued s))" "tracked s"
    "paced (rate_limit s) (map fst (issued s))"
  shows "tracked (snd (make_request e s u)) \<and>
         paced (rate_limit s) (map fst (issued (snd (make_request e s u))))"
proof -
  have w: "last_request_time s + rate_limit s \<le> last_request_time (respect_rate_limit e s)"
    using assms(1) by (rule respect_waits)
  have t: "tracked (snd (make_request e s u))"
    by (simp add: tracked_def make_request_fields)
  have "issued s = [] \<or> rate_limit s \<le> last_request_time (respect_rate_limit e s) - last (map fst (issued s))"
  proof (cases "issued s = []")
    case True
    then show ?thesis by simp
  next
    case False
    then have "last (map fst (issued s)) = last_request_time s"
      using assms(2) by (simp add: tracked_def last_map)
    then show ?thesis using w by simp
  qed
  then have "paced (rate_limit s) (map fst (issued s) @ [last_request_time (respect_rate_limit e s)])"
    using assms(3) by (auto simp: paced_snoc)
  then show ?thesis using t by (simp add: make_request_fields)
qed

lemma fetches_paced:
  assumes "\<forall>n. 0 \<le> oversleep e n" "tracked s" "paced (rate_limit s) (map fst (issued s))"
  shows "paced (rate_limit s) (map fst (issued (fetches e s urls))) \<and>
         map snd (issued (fetches e s urls)) = map snd (issued s) @ urls \<and>
         rate_limit (fetches e s urls) = rate_limit s"
  using assms(2,3)
proof (induction urls arbitrary: s)
  case Nil
  then show ?case by simp
next
  case (Cons u urls)
  let ?s1 = "snd (make_request e s u)"
  have "0 \<le> oversleep e (length (issued s))" using assms(1) by simp
  then have s1: "tracked ?s1" "paced (rate_limit ?s1) (map fst (issued ?s1))"
    using make_request_paced [of e s u] Cons.prems by (simp_all add: make_request_fields(2))
  show ?case
    using Cons.IH [OF s1] by (simp add: make_request_fields)
qed

text \<open>
  Claim C4. For every run of requests made one after another through one scraper, the
  start times of two consecutive requests are at least \<open>rate_limit\<close> apart (1.0 for
  the scrapers of the module): \<open>make_request\<close> first waits until \<open>rate_limit\<close> has
  passed since \<open>last_request_time\<close> (\<open>respect_waits\<close>), sets
  \<open>last_request_time\<close> to the clock after the wait, and issues the request at that time
  (\<open>make_request_fields\<close>). The clock is the model's: a sleep lasts at least as long as
  asked, and times are real numbers.
\<close>

theorem requests_paced:
  assumes "\<forall>n. 0 \<le> oversleep e n" "issued s = []"
  shows "map snd (issued (fetches e s urls)) = urls \<and>
         (\<forall>i. Suc i < length urls \<longrightarrow>
            rate_limit s \<le> fst (issued (fetches e s urls) ! Suc i) - fst (issued (fetches e s urls) ! i))"
proof -
  let ?tr = "issued (fetches e s urls)"
  have p: "paced (rate_limit s) (map fst ?tr)" and u: "map snd ?tr = urls"
    using fetches_paced [OF assms(1), of s urls] assms(2) by (simp_all add: tracked_def)
  have len: "length ?tr = length urls" using u by (metis length_map)
  have "rate_limit s \<le> fst (?tr ! Suc i) - fst (?tr ! i)" if "Suc i < length urls" for i
    using paced_nth [OF p, of i] that len by simp
  then show ?thesis using u by blast
qed

lemma three_fetches:
  "map fst (issued (fetches slow_net (NYTimesScraper 0 1000) [py ''a'', py ''b'', py ''c''])) = [1000, 1001, 1002]"
  by (simp add: make_request_def respect_rate_limit_def rotate_user_agent_def Let_def slow_net_def
      NYTimesScraper_def NewsScraper_def)

theorem requests_paced_witness:
  "(\<forall>n. 0 \<le> oversleep slow_net n) \<and> issued (NYTimesScraper 0 1000) = [] \<and>
   rate_limit (NYTimesScraper 0 1000) = 1 \<and>
   map fst (issued (fetches slow_net (NYTimesScraper 0 1000) [py ''a'', py ''b'', py ''c''])) = [1000, 1001, 1002] \<and>
   rate_limit (NYTimesScraper 0 1000)
     \<le> fst (issued (fetches slow_net (NYTimesScraper 0 1000) [py ''a'', py ''b'', py ''c'']) ! Suc 0)
       - fst (issued (fetches slow_net (NYTimesScraper 0 1000) [py ''a'', py ''b'', py ''c'']) ! 0)"
proof -
  have h1: "\<forall>n. 0 \<le> oversleep slow_net n" by (simp add: slow_net_def)
  have h2: "issued (NYTimesScraper 0 1000) = []" by (simp add: NYTimesScraper_def NewsScraper_def)
  have h3: "rate_limit (NYTimesScraper 0 1000) = 1" by (simp add: NYTimesScraper_def NewsScraper_def)
  show ?thesis
    using requests_paced [OF h1 h2, of "[py ''a'', py ''b'', py ''c'']"] h1 h2 h3 three_fetches by simp
qed


subsection \<open>Fetching articles\<close>

lemma make_request_answer:
  "fst (make_request e s u) = raise_for_status (response e (length (issued s)) u)"
  by (simp add: make_request_def respect_rate_limit_def rotate_user_agent_def Let_def)

lemma make_request_frame:
  "logged (snd (make_request e s u)) = logged s"
  "variant_of (snd (make_request e s u)) = variant_of s"
  "domain (snd (make_request e s u)) = domain s"
  "map snd (issued (snd (make_request e s u))) = map snd (issued s) @ [u]"
  "length (issued (snd (make_request e s u))) = Suc (length (issued s))"
  by (simp_all add: make_request_def respect_rate_limit_def rotate_user_agent_def Let_def)

lemma build_article_site:
  "same_site s s' \<Longrightarrow> build_article e s' u soup = build_article e s u soup"
  by (simp add: build_article_def same_site_def)

lemma fetch_article_result:
  "fst (fetch_article e s u) = outcome e s (length (issued s)) u"
proof -
  obtain r s1 where m: "make_request e s u = (r, s1)" by (cases "make_request e s u")
  then have r: "r = raise_for_status (response e (length (issued s)) u)"
    using make_request_answer [of e s u] by simp
  have "same_site s s1" using m make_request_frame(2,3) [of e s u] by (simp add: same_site_def)
  then have "build_article e s1 u soup = build_article e s u soup" for soup
    by (rule build_article_site)
  then show ?thesis using m r
    by (simp add: fetch_article_def outcome_def split: sum.splits)
qed

lemma fetch_article_frame:
  "logged (snd (fetch_article e s u)) = logged s @ record_of e s (length (issued s)) u"
  "variant_of (snd (fetch_article e s u)) = variant_of s"
  "domain (snd (fetch_article e s u)) = domain s"
  "map snd (issued (snd (fetch_article e s u))) = map snd (issued s) @ [u]"
  "length (issued (snd (fetch_article e s u))) = Suc (length (issued s))"
proof -
  obtain r s1 where m: "make_request e s u = (r, s1)" by (cases "make_request e s u")
  then have r: "r = raise_for_status (response e (length (issued s)) u)"
    using make_request_answer [of e s u] by simp
  have f: "logged s1 = logged s" "variant_of s1 = variant_of s" "domain s1 = domain s"
    "map snd (issued s1) = map snd (issued s) @ [u]" "length (issued s1) = Suc (length (issued s))"
    using m make_request_frame [of e s u] by simp_all
  show "logged (snd (fetch_article e s u)) = logged s @ record_of e s (length (issued s)) u"
    using m r f by (simp add: fetch_article_def record_of_def split: sum.splits)
  show "variant_of (snd (fetch_article e s u)) = variant_of s"
    using m f by (simp add: fetch_article_def split: sum.splits)
  show "domain (snd (fetch_article e s u)) = domain s"
    using m f by (simp add: fetch_article_def split: sum.splits)
  show "map snd (issued (snd (fetch_article e s u))) = map snd (issued s) @ [u]"
    using m f by (simp add: fetch_article_def split: sum.splits)
  show "length (issued (snd (fetch_article e s u))) = Suc (length (issued s))"
    using m f by (simp add: fetch_article_def split: sum.splits)
qed

lemma same_site_trans: "same_site s s0 \<Longrightarrow> same_site s (snd (fetch_article e s0 u))"
  by (simp add: same_site_def fetch_article_frame)

lemma outcome_site: "same_site s s' \<Longrightarrow> outcome e s' n u = outcome e s n u"
  by (simp add: outcome_def build_article_site split: sum.splits)

lemma record_of_site: "same_site s s' \<Longrightarrow> record_of e s' n u = record_of e s n u"
  by (simp add: record_of_def same_site_def split: sum.splits)

lemma successes_site: "same_site s s' \<Longrightarrow> successes e s' n us = successes e s n us"
  by (induction us arbitrary: n) (simp_all add: outcome_site split: option.splits)

lemma records_site: "same_site s s' \<Longrightarrow> records e s' n us = records e s n us"
  by (induction us arbitrary: n) (simp_all add: record_of_site)

lemma successes_length_take:
  "length (successes e s n (take j us)) \<le> length (successes e s n us)"
proof (induction us arbitrary: n j)
  case Nil
  then show ?case by simp
next
  case (Cons u us)
  then show ?case by (cases j) (auto split: option.splits intro: le_SucI)
qed


lemma raise_for_status_accepts:
  "raise_for_status a = Inr body \<longleftrightarrow>
     (\<exists>status msg. a = Response status msg body \<and> \<not> (400 \<le> status \<and> status < 600))"
  by (cases a) auto


lemma fetch_loop_take:
  assumes "same_site s s0"
  shows "fst (fetch_loop e limit urls acc s0) =
           acc @ take (max 1 (nat limit - length acc)) (successes e s (length (issued s0)) urls)"
  using assms
proof (induction urls arbitrary: acc s0)
  case Nil
  then show ?case by simp
next
  case (Cons u urls)
  let ?n = "length (issued s0)"
  obtain r s1 where fa: "fetch_article e s0 u = (r, s1)" by (cases "fetch_article e s0 u")
  have r: "r = outcome e s ?n u"
    using fa fetch_article_result [of e s0 u] outcome_site [OF Cons.prems(1)] by simp
  have tr: "length (issued s1) = Suc ?n"
    using fa fetch_article_frame(5) [of e s0 u] by simp
  have site: "same_site s s1" using fa same_site_trans [OF Cons.prems(1), of e u] by simp
  show ?case
  proof (cases r)
    case None
    then show ?thesis using fa r tr Cons.IH [OF site, of acc] by simp
  next
    case (Some a)
    show ?thesis
    proof (cases "int (length (acc @ [a])) \<ge> limit")
      case True
      then have "max 1 (nat limit - length acc) = 1" by auto
      then show ?thesis using fa Some r True by simp
    next
      case False
      then have "max 1 (nat limit - length acc) = Suc (max 1 (nat limit - length (acc @ [a])))"
        by auto
      then show ?thesis using fa Some r False tr Cons.IH [OF site, of "acc @ [a]"] by simp
    qed
  qed
qed

lemma url_build_article [simp]: "url (build_article e s u soup) = u"
  by (simp add: build_article_def NewsArticle_def)



lemma get_article_urls_site: "same_site s (snd (get_article_urls e s limit))"
proof -
  obtain r s1 where m: "make_request e s (base_url s) = (r, s1)"
    by (cases "make_request e s (base_url s)")
  then have "variant_of s1 = variant_of s" "domain s1 = domain s"
    using make_request_frame(2,3) [of e s "base_url s"] by simp_all
  then show ?thesis using m
    by (auto simp: get_article_urls_def NewsScraper_get_article_urls_def
        NYTimesScraper_get_article_urls_def BBCScraper_get_article_urls_def same_site_def
        split: variant.splits sum.splits)
qed


lemma fetch_latest_is_loop:
  "fetch_latest_articles e s limit =
     fetch_loop e limit (fst (get_article_urls e s limit)) [] (snd (get_article_urls e s limit))"
  by (simp add: fetch_latest_articles_def split: prod.splits)

lemma fetch_latest_take:
  "fst (fetch_latest_articles e s limit) =
     take (needed limit)
       (successes e s (length (issued (snd (get_article_urls e s limit))))
          (fst (get_article_urls e s limit)))"
  using fetch_loop_take [where s = s and ?s0.0 = "snd (get_article_urls e s limit)" and acc = "[]"
      and limit = limit and e = e, OF get_article_urls_site]
  by (simp add: fetch_latest_is_loop needed_def)

lemma fetch_latest_length:
  assumes "1 \<le> limit"
  shows "int (length (fst (fetch_latest_articles e s limit))) \<le> limit"
  using assms by (simp add: fetch_latest_take needed_def)

lemma nyt_flaky_urls:
  "fst (get_article_urls flaky (NYTimesScraper 0 0) 10) =
     [py ''https://www.nytimes.com/2024/01/15/world/europe/summit.html'',
      py ''https://www.nytimes.com/2023/12/31/arts/review.html'']"
  by (simp add: get_article_urls_def nyt_urls_cases make_request_answer nyt_scraper_base
      nyt_front_def hrefs_front_page startswith_def Let_def flaky_def NYTimesScraper_def
      NewsScraper_def)



lemma loop_stops_early:
  "map snd (issued (snd (fetch_loop (serve article_page) 1 [py ''a'', py ''b'', py ''c''] []
      (NYTimesScraper 0 0)))) = [py ''a'']"
  by (simp add: fetch_article_def make_request_def respect_rate_limit_def rotate_user_agent_def
      Let_def serve_def NYTimesScraper_def NewsScraper_def)




text \<open>
  Claim C1 does not hold for a limit of zero: discovery returns one URL, the loop
  appends its article before it compares the length with the limit, and one article is
  returned. For a limit of at least one the result is the first \<open>limit\<close> successful
  fetches of the discovered URLs in discovery order (\<open>fetch_latest_take\<close>,
  \<open>fetch_latest_length\<close>), and the loop stops as soon as it has them
  (\<open>fetch_loop_exact\<close>, \<open>loop_stops_early\<close>).
\<close>

theorem latest_limit_zero:
  "map url (fst (fetch_latest_articles (serve nyt_front) (NYTimesScraper 0 0) 0)) =
     [py ''https://www.nytimes.com/2024/01/15/world/europe/summit.html''] \<and>
   \<not> int (length (fst (fetch_latest_articles (serve nyt_front) (NYTimesScraper 0 0) 0))) \<le> 0"
  by (simp add: fetch_latest_articles_def get_article_urls_def NYTimesScraper_get_article_urls_def
      fetch_article_def make_request_def respect_rate_limit_def rotate_user_agent_def
      nyt_front_def hrefs_front_page startswith_def Let_def serve_def NYTimesScraper_def
      NewsScraper_def build_article_def NewsArticle_def)


subsection \<open>Dates\<close>

lemmas iso_eval = fromisoformat_310_def read_digits_def digit_val_def parse_isoformat_time_def
  parse_hh_mm_ss_ff_def is_sign_def new_datetime_def valid_datetime_def days_in_month_def
  is_leap_def Let_def

lemma time_attr_doc: "a \<noteq> [] \<Longrightarrow> time_attr (time_doc a) = Some a"
  by (simp add: time_attr_def time_doc_def find_def find_all_def)

lemma e1: "fromisoformat_310 (py ''2024-03-01T12:00:00+00:00'') =
    Some \<lparr>year = 2024, month = 3, day = 1, hour = 12, minute = 0, second = 0, microsecond = 0,
          utcoffset = Some 0\<rparr>"
  by (simp add: iso_eval)

lemma e2: "fromisoformat_310 (py ''2024-03-01Z12:00:00'') =
    Some \<lparr>year = 2024, month = 3, day = 1, hour = 12, minute = 0, second = 0, microsecond = 0,
          utcoffset = None\<rparr>"
  by (simp add: iso_eval)

lemma e3: "fromisoformat_310 (py ''2024-03-01+00:0012:00:00'') = None"
  by (simp add: iso_eval)

lemma e4: "fromisoformat_310 (py ''2024-03-01T12:00+00:00:30'') =
    Some \<lparr>year = 2024, month = 3, day = 1, hour = 12, minute = 0, second = 0, microsecond = 0,
          utcoffset = Some 30000000\<rparr>"
  by (simp add: iso_eval)

lemma e5: "fromisoformat_310 (py ''2024-03-01T12:00Z:30'') = None"
  by (simp add: iso_eval)


lemma py_replace_append:
  "py_replace c new (xs @ ys) = py_replace c new xs @ py_replace c new ys"
  by (simp add: py_replace_def)

lemma py_replace_absent: "c \<notin> set xs \<Longrightarrow> py_replace c new xs = xs"
  by (induction xs) (auto simp: py_replace_def)

lemma py_replace_trailing:
  "c \<notin> set xs \<Longrightarrow> py_replace c new (xs @ [c]) = xs @ new"
  by (simp add: py_replace_append py_replace_absent) (simp add: py_replace_def)

lemma parse_time_tag_attr:
  "parse_time_tag parse soup =
     (case time_attr soup of None \<Rightarrow> (None, [])
      | Some a \<Rightarrow>
          (case parse (py_replace (of_char (CHR ''Z'')) (py ''+00:00'') a) of
             Some d \<Rightarrow> (Some d, [])
           | None \<Rightarrow> (None, [DateError (py_replace (of_char (CHR ''Z'')) (py ''+00:00'') a)])))"
  by (simp add: parse_time_tag_def time_attr_def Let_def split: option.splits)

lemma extract_date_attr:
  assumes "v \<noteq> Generic"
  shows "extract_date parse v soup = parse_time_tag parse soup"
  using assms by (cases v) (simp_all add: NYTimesScraper_extract_date_def BBCScraper_extract_date_def)

text \<open>
  Claim C6, as amended. For the New York Times and the BBC variant, every parsed
  document and every ISO-8601 parser \<open>parse\<close> (the \<^verbatim>\<open>datetime.fromisoformat\<close> of
  the interpreter that runs the scraper), date extraction takes the
  \<^verbatim>\<open>datetime\<close> attribute of the first \<^verbatim>\<open>time\<close> element, replaces every
  \<^verbatim>\<open>Z\<close> in it by \<^verbatim>\<open>+00:00\<close> and hands the result to the parser. It returns
  no date when the element or the attribute is missing, the attribute is empty or the parser
  refuses the text; a refused text is logged and nothing is raised. A value whose only
  \<^verbatim>\<open>Z\<close> is its last character is parsed with the explicit offset
  \<^verbatim>\<open>+00:00\<close> in its place, a value without \<^verbatim>\<open>Z\<close> is parsed as it is, and
  \<^verbatim>\<open>2024-03-01T12:00:00Z\<close> gives what the parser reads from
  \<^verbatim>\<open>2024-03-01T12:00:00+00:00\<close>: with the parser of Python 3.7 to 3.10 the
  witness evaluates it to the Some \<lparr>year = 2024, month = 3, day = 1, hour = 12, minute = 0, second = 0, microsecond = 0,
           utcoffset = Some 0\<rparr> instant 2024-03-01T12:00:00+00:00.
\<close>

theorem extract_date_replaces_Z:
  assumes "v \<noteq> Generic"
  shows "fst (extract_date parse v soup) =
           (case time_attr soup of None \<Rightarrow> None
            | Some a \<Rightarrow> parse (py_replace (of_char (CHR ''Z'')) (py ''+00:00'') a)) \<and>
         snd (extract_date parse v soup) =
           (case time_attr soup of None \<Rightarrow> []
            | Some a \<Rightarrow>
                (case parse (py_replace (of_char (CHR ''Z'')) (py ''+00:00'') a) of
                   Some d \<Rightarrow> [] | None \<Rightarrow> [DateError (py_replace (of_char (CHR ''Z'')) (py ''+00:00'') a)])) \<and>
         (\<forall>b. time_attr soup = Some (b @ (py ''Z'')) \<and> (of_char (CHR ''Z'')) \<notin> set b \<longrightarrow>
            fst (extract_date parse v soup) = parse (b @ (py ''+00:00''))) \<and>
         (\<forall>a. time_attr soup = Some a \<and> (of_char (CHR ''Z'')) \<notin> set a \<longrightarrow>
            fst (extract_date parse v soup) = parse a) \<and>
         fst (extract_date parse v (time_doc (py ''2024-03-01T12:00:00Z''))) =
           parse (py ''2024-03-01T12:00:00+00:00'')"
proof -
  have e: "extract_date parse v nd = parse_time_tag parse nd" for nd
    using assms by (rule extract_date_attr)
  have a: "fst (extract_date parse v soup) =
           (case time_attr soup of None \<Rightarrow> None
            | Some a \<Rightarrow> parse (py_replace (of_char (CHR ''Z'')) (py ''+00:00'') a))"
    by (simp add: e parse_time_tag_attr split: option.splits)
  have b: "snd (extract_date parse v soup) =
           (case time_attr soup of None \<Rightarrow> []
            | Some a \<Rightarrow>
                (case parse (py_replace (of_char (CHR ''Z'')) (py ''+00:00'') a) of
                   Some d \<Rightarrow> [] | None \<Rightarrow> [DateError (py_replace (of_char (CHR ''Z'')) (py ''+00:00'') a)]))"
    by (simp add: e parse_time_tag_attr split: option.splits)
  have c: "fst (extract_date parse v soup) = parse (b @ (py ''+00:00''))"
    if "time_attr soup = Some (b @ (py ''Z''))" "(of_char (CHR ''Z'')) \<notin> set b" for b
    using that py_replace_trailing [of "(of_char (CHR ''Z''))" b "(py ''+00:00'')"] by (simp add: a)
  have d: "fst (extract_date parse v soup) = parse x"
    if "time_attr soup = Some x" "(of_char (CHR ''Z'')) \<notin> set x" for x
    using that by (simp add: a py_replace_absent)
  have f: "fst (extract_date parse v (time_doc (py ''2024-03-01T12:00:00Z''))) =
           parse (py ''2024-03-01T12:00:00+00:00'')"
    by (simp add: e parse_time_tag_attr time_attr_doc py_replace_def split: option.splits)
  show ?thesis using a b c d f by blast
qed

theorem extract_date_witness:
  "NYTimes \<noteq> Generic \<and>
   time_attr (time_doc (py ''2024-03-01T12:00:00Z'')) = Some ((py ''2024-03-01T12:00:00'') @ (py ''Z'')) \<and>
   (of_char (CHR ''Z'')) \<notin> set (py ''2024-03-01T12:00:00'') \<and>
   fst (extract_date fromisoformat_310 NYTimes (time_doc (py ''2024-03-01T12:00:00Z''))) =
     Some \<lparr>year = 2024, month = 3, day = 1, hour = 12, minute = 0, second = 0, microsecond = 0,
           utcoffset = Some 0\<rparr> \<and>
   fst (extract_date fromisoformat_310 BBC (time_doc (py ''2024-03-01T12:00:00Z''))) =
     Some \<lparr>year = 2024, month = 3, day = 1, hour = 12, minute = 0, second = 0, microsecond = 0,
           utcoffset = Some 0\<rparr> \<and>
   extract_date fromisoformat_310 NYTimes (time_doc (py ''not a date'')) =
     (None, [DateError (py ''not a date'')])"
  using extract_date_replaces_Z [of NYTimes fromisoformat_310 "time_doc (py ''2024-03-01T12:00:00Z'')"]
    extract_date_replaces_Z [of BBC fromisoformat_310 "time_doc (py ''2024-03-01T12:00:00Z'')"]
    extract_date_replaces_Z [of NYTimes fromisoformat_310 "time_doc (py ''not a date'')"]
  by (simp add: time_attr_doc e1 [simplified] py_replace_def iso_eval prod_eq_iff)

text \<open>
  The claim as first stated (only a trailing \<^verbatim>\<open>Z\<close> is normalized) fails on values
  with a \<^verbatim>\<open>Z\<close> elsewhere. For \<^verbatim>\<open>2024-03-01T12:00Z:30\<close> the code hands
  \<^verbatim>\<open>2024-03-01T12:00+00:00:30\<close> to the parser and returns a date with an offset of
  30 seconds, where replacing a trailing \<^verbatim>\<open>Z\<close> leaves the text as it is, which
  does not parse. For \<^verbatim>\<open>2024-03-01Z12:00:00\<close> the code hands
  \<^verbatim>\<open>2024-03-01+00:0012:00:00\<close> to the parser and returns no date, where the text
  as it is parses (any character may separate date and time). The parser of the example is
  that of Python 3.7 to 3.10; Python 3.11 gives the same four answers.
\<close>

theorem extract_date_counterexample:
  "py_replace (of_char (CHR ''Z'')) (py ''+00:00'') (py ''2024-03-01T12:00Z:30'') = py ''2024-03-01T12:00+00:00:30'' \<and>
   normalize_trailing_Z (py ''2024-03-01T12:00Z:30'') = py ''2024-03-01T12:00Z:30'' \<and>
   fst (extract_date fromisoformat_310 NYTimes (time_doc (py ''2024-03-01T12:00Z:30''))) =
     Some \<lparr>year = 2024, month = 3, day = 1, hour = 12, minute = 0, second = 0, microsecond = 0,
           utcoffset = Some 30000000\<rparr> \<and>
   fromisoformat_310 (normalize_trailing_Z (py ''2024-03-01T12:00Z:30'')) = None \<and>
   py_replace (of_char (CHR ''Z'')) (py ''+00:00'') (py ''2024-03-01Z12:00:00'') = py ''2024-03-01+00:0012:00:00'' \<and>
   normalize_trailing_Z (py ''2024-03-01Z12:00:00'') = py ''2024-03-01Z12:00:00'' \<and>
   extract_date fromisoformat_310 NYTimes (time_doc (py ''2024-03-01Z12:00:00'')) =
     (None, [DateError (py ''2024-03-01+00:0012:00:00'')]) \<and>
   fromisoformat_310 (normalize_trailing_Z (py ''2024-03-01Z12:00:00'')) =
     Some \<lparr>year = 2024, month = 3, day = 1, hour = 12, minute = 0, second = 0, microsecond = 0,
           utcoffset = None\<rparr>"
  by (simp add: NYTimesScraper_extract_date_def parse_time_tag_attr time_attr_doc py_replace_def
      normalize_trailing_Z_def e2 [simplified] e3 [simplified] e4 [simplified]
      e5 [simplified])


end
